theory Spec2Isabelle
  imports Main "HOL-Library.Word"
begin

unbundle bit_operations_syntax

section \<open>Bytes and Python values\<close>

text \<open>
  The parser reads the whole file into a \<^verbatim>\<open>bytes\<close> object. Indexing it gives
  an integer in \<open>0..255\<close>, so a buffer is a list of 8-bit words and a byte is read as a number
  with \<open>unat\<close>. Python integers are unbounded; the values decoded here are never negative
  except for \<^verbatim>\<open>_read_i32\<close>, so they are naturals and the signed read is an integer.
\<close>

type_synonym byte = "8 word"

datatype py_error = IndexError | StructError

text \<open>
  A Python float is kept as the bit pattern it was unpacked from, or as the expression that
  produced it: no floating-point arithmetic is evaluated in this development.
\<close>

datatype pyfloat =
    FloatBits32 nat       \<comment> \<open>the value of \<^verbatim>\<open>struct.unpack('<f', ...)\<close> on this 32-bit pattern\<close>
  | FloatBits64 nat       \<comment> \<open>the value of \<^verbatim>\<open>struct.unpack('<d', ...)\<close> on this 64-bit pattern\<close>
  | TrueDiv nat nat       \<comment> \<open>\<^verbatim>\<open>a / b\<close> on integers, \<open>b\<close> not zero\<close>
  | Round2 pyfloat        \<comment> \<open>\<^verbatim>\<open>round(x, 2)\<close> on a float\<close>

text \<open>Little-endian value of a byte string (\<^verbatim>\<open><H\<close>, \<^verbatim>\<open><I\<close>, \<^verbatim>\<open><Q\<close>).\<close>

fun le_nat :: "byte list \<Rightarrow> nat" where
  "le_nat [] = 0"
| "le_nat (b # bs) = unat b + 256 * le_nat bs"

text \<open>Two's complement reading of a 32-bit pattern (\<^verbatim>\<open><i\<close>).\<close>

definition signed32 :: "nat \<Rightarrow> int" where
  "signed32 n = (if n < 2 ^ 31 then int n else int n - 2 ^ 32)"

text \<open>Python slicing \<^verbatim>\<open>data[a:b]\<close> for \<open>0 \<le> a\<close>: clipped to the buffer, never raises.\<close>

definition slice :: "'a list \<Rightarrow> nat \<Rightarrow> nat \<Rightarrow> 'a list" where
  "slice xs a b = take (b - a) (drop a xs)"

text \<open>
  Python indexing \<^verbatim>\<open>data[i]\<close>: a negative index counts from the end, and an index
  outside the buffer raises \<^verbatim>\<open>IndexError\<close>.
\<close>

definition py_getitem :: "byte list \<Rightarrow> int \<Rightarrow> py_error + byte" where
  "py_getitem data i =
     (if 0 \<le> i then (if i < int (length data) then Inr (data ! nat i) else Inl IndexError)
      else (if 0 \<le> i + int (length data) then Inr (data ! nat (i + int (length data)))
            else Inl IndexError))"

text \<open>
  \<^verbatim>\<open>struct.unpack_from(fmt, data, off)\<close> for a format of \<open>w\<close> bytes: the \<open>w\<close> bytes at
  \<open>off\<close>, or \<^verbatim>\<open>struct.error\<close> when they are not all inside the buffer. A negative offset
  counts from the end.
\<close>

definition unpack_from :: "nat \<Rightarrow> byte list \<Rightarrow> int \<Rightarrow> py_error + byte list" where
  "unpack_from w data off =
     (if off < 0 then
        (if 0 < off + int w \<or> off + int (length data) < 0 then Inl StructError
         else Inr (take w (drop (nat (off + int (length data))) data)))
      else if int (length data) - off < int w then Inl StructError
      else Inr (take w (drop (nat off) data)))"

section \<open>The byte readers of \<^verbatim>\<open>GoproMDBParser\<close>\<close>

definition read_u8 :: "byte list \<Rightarrow> int \<Rightarrow> py_error + nat" where
  "read_u8 data offset =
     (if offset < int (length data) then map_sum id unat (py_getitem data offset) else Inr 0)"

definition read_u16 :: "byte list \<Rightarrow> int \<Rightarrow> py_error + nat" where
  "read_u16 data offset =
     (if offset + 2 \<le> int (length data) then map_sum id le_nat (unpack_from 2 data offset)
      else Inr 0)"

definition read_u32 :: "byte list \<Rightarrow> int \<Rightarrow> py_error + nat" where
  "read_u32 data offset =
     (if offset + 4 \<le> int (length data) then map_sum id le_nat (unpack_from 4 data offset)
      else Inr 0)"

definition read_u64 :: "byte list \<Rightarrow> int \<Rightarrow> py_error + nat" where
  "read_u64 data offset =
     (if offset + 8 \<le> int (length data) then map_sum id le_nat (unpack_from 8 data offset)
      else Inr 0)"

definition read_i32 :: "byte list \<Rightarrow> int \<Rightarrow> py_error + int" where
  "read_i32 data offset =
     (if offset + 4 \<le> int (length data)
      then map_sum id (\<lambda>bs. signed32 (le_nat bs)) (unpack_from 4 data offset)
      else Inr 0)"

definition read_f32 :: "byte list \<Rightarrow> int \<Rightarrow> py_error + pyfloat" where
  "read_f32 data offset =
     (if offset + 4 \<le> int (length data)
      then map_sum id (\<lambda>bs. FloatBits32 (le_nat bs)) (unpack_from 4 data offset)
      else Inr (FloatBits32 0))"

definition read_f64 :: "byte list \<Rightarrow> int \<Rightarrow> py_error + pyfloat" where
  "read_f64 data offset =
     (if offset + 8 \<le> int (length data)
      then map_sum id (\<lambda>bs. FloatBits64 (le_nat bs)) (unpack_from 8 data offset)
      else Inr (FloatBits64 0))"

text \<open>
  The same readers on a natural offset, as every caller in the parser uses them: the value
  only, since no call with a non-negative offset raises (lemmas \<open>read_u8_nat\<close> to
  \<open>read_u64_nat\<close> below).
\<close>

definition u8_at :: "byte list \<Rightarrow> nat \<Rightarrow> nat" where
  "u8_at data off = (if off < length data then unat (data ! off) else 0)"

definition u16_at :: "byte list \<Rightarrow> nat \<Rightarrow> nat" where
  "u16_at data off = (if off + 2 \<le> length data then le_nat (take 2 (drop off data)) else 0)"

definition u32_at :: "byte list \<Rightarrow> nat \<Rightarrow> nat" where
  "u32_at data off = (if off + 4 \<le> length data then le_nat (take 4 (drop off data)) else 0)"

definition u64_at :: "byte list \<Rightarrow> nat \<Rightarrow> nat" where
  "u64_at data off = (if off + 8 \<le> length data then le_nat (take 8 (drop off data)) else 0)"

definition f32_at :: "byte list \<Rightarrow> nat \<Rightarrow> pyfloat" where
  "f32_at data off = FloatBits32 (u32_at data off)"

text \<open>The little-endian value of the \<open>w\<close> bytes at \<open>off\<close>, written as a sum.\<close>

definition le_value :: "byte list \<Rightarrow> nat \<Rightarrow> nat \<Rightarrow> nat" where
  "le_value data off w = (\<Sum>i<w. unat (data ! (off + i)) * 256 ^ i)"

section \<open>Formatting\<close>

text \<open>
  Python's \<^verbatim>\<open>str(n)\<close> and the format specifications \<^verbatim>\<open>{n:0Wd}\<close>,
  \<^verbatim>\<open>{n:0Wx}\<close>, \<^verbatim>\<open>{n:0WX}\<close> on a non-negative integer: the digits, padded on
  the left with zeros up to width \<open>W\<close> and never cut.
\<close>

definition digit_char :: "nat \<Rightarrow> char" where
  "digit_char d = ''0123456789abcdef'' ! d"

definition digit_char_upper :: "nat \<Rightarrow> char" where
  "digit_char_upper d = ''0123456789ABCDEF'' ! d"

fun dec :: "nat \<Rightarrow> string" where
  "dec n = (if n < 10 then [digit_char n] else dec (n div 10) @ [digit_char (n mod 10)])"

fun hex_lower :: "nat \<Rightarrow> string" where
  "hex_lower n =
     (if n < 16 then [digit_char n] else hex_lower (n div 16) @ [digit_char (n mod 16)])"

fun hex_upper :: "nat \<Rightarrow> string" where
  "hex_upper n =
     (if n < 16 then [digit_char_upper n]
      else hex_upper (n div 16) @ [digit_char_upper (n mod 16)])"

declare dec.simps [simp del] hex_lower.simps [simp del] hex_upper.simps [simp del]

definition zero_pad :: "nat \<Rightarrow> string \<Rightarrow> string" where
  "zero_pad w s = replicate (w - length s) (CHR ''0'') @ s"

definition fmt_d :: "nat \<Rightarrow> nat \<Rightarrow> string" where
  "fmt_d w n = zero_pad w (dec n)"

definition fmt_x :: "nat \<Rightarrow> nat \<Rightarrow> string" where
  "fmt_x w n = zero_pad w (hex_lower n)"

definition fmt_X :: "nat \<Rightarrow> nat \<Rightarrow> string" where
  "fmt_X w n = zero_pad w (hex_upper n)"

text \<open>\<^verbatim>\<open>bytes.hex()\<close>: two lower-case digits per byte.\<close>

definition bytes_hex :: "byte list \<Rightarrow> string" where
  "bytes_hex bs = concat (map (\<lambda>b. fmt_x 2 (unat b)) bs)"

text \<open>Reading a decimal numeral back, to state round trips.\<close>

definition digit_val :: "char \<Rightarrow> nat" where
  "digit_val c = of_char c - 48"

definition read_dec :: "string \<Rightarrow> nat" where
  "read_dec s = foldl (\<lambda>a c. 10 * a + digit_val c) 0 s"

text \<open>The values the parser puts into its output dictionaries (and so into JSON).\<close>

datatype pyval =
    PNone
  | PInt int
  | PFloat pyfloat
  | PStr string
  | PList "pyval list"
  | PDict "(string \<times> pyval) list"

definition pnat :: "nat \<Rightarrow> pyval" where
  "pnat n = PInt (int n)"

section \<open>File handles\<close>

definition decode_file_handle :: "nat \<Rightarrow> pyval" where
  "decode_file_handle fh =
     (let dir_no = (drop_bit 32 fh) AND 0xFF;
          file_no = fh AND 0xFFFF;
          type_flag = (drop_bit 56 fh) AND 0xFF;
          prefix = ''GX'';
          chapter = 0;
          filename = prefix @ dec chapter @ fmt_d 4 file_no @ ''.MP4''
      in PDict [
           (''directory'', PStr (fmt_d 3 dir_no @ ''GOPRO'')),
           (''file_number'', pnat file_no),
           (''type_flag'', pnat type_flag),
           (''estimated_path'', PStr (fmt_d 3 dir_no @ ''GOPRO/'' @ filename))])"

section \<open>Strings\<close>

text \<open>\<^verbatim>\<open>chr(b)\<close> for a byte, and the ASCII bytes of a literal such as \<^verbatim>\<open>b'vtag'\<close>.\<close>

definition chr_of_byte :: "byte \<Rightarrow> char" where
  "chr_of_byte b = char_of (unat b)"

definition ascii :: "string \<Rightarrow> byte list" where
  "ascii s = map of_char s"

text \<open>
  \<^verbatim>\<open>str.strip()\<close>: removes leading and trailing whitespace. Among the one-byte characters
  Python's \<^verbatim>\<open>str.isspace\<close> holds for 9 to 13, 28 to 32, 0x85 and 0xA0.
\<close>

definition py_isspace :: "char \<Rightarrow> bool" where
  "py_isspace c =
     (let n = (of_char c :: nat)
      in (9 \<le> n \<and> n \<le> 13) \<or> (28 \<le> n \<and> n \<le> 32) \<or> n = 0x85 \<or> n = 0xA0)"

definition py_strip :: "string \<Rightarrow> string" where
  "py_strip s = rev (dropWhile py_isspace (rev (dropWhile py_isspace s)))"

text \<open>\<^verbatim>\<open>sep.join(xs)\<close>.\<close>

fun py_join :: "string \<Rightarrow> string list \<Rightarrow> string" where
  "py_join sep [] = []"
| "py_join sep [x] = x"
| "py_join sep (x # y # ys) = x @ sep @ py_join sep (y # ys)"

text \<open>\<^verbatim>\<open>needle in haystack\<close> on bytes: the needle occurs as a contiguous run.\<close>

fun bytes_contains :: "byte list \<Rightarrow> byte list \<Rightarrow> bool" where
  "bytes_contains needle [] = (needle = [])"
| "bytes_contains needle (x # xs) =
     (take (length needle) (x # xs) = needle \<or> bytes_contains needle xs)"

text \<open>
  \<^verbatim>\<open>range(start, stop, step)\<close> for a positive step and a start that is not negative. The
  callers compute \<open>stop\<close> by a subtraction that Python may take below zero; the range is
  then empty, as it is here with the subtraction of naturals that stops at zero.
\<close>

definition range_step :: "nat \<Rightarrow> nat \<Rightarrow> nat \<Rightarrow> nat list" where
  "range_step start stop step =
     map (\<lambda>k. start + k * step) [0..<(stop - start + step - 1) div step]"

section \<open>Data classes of the parser\<close>

text \<open>
  Isabelle has one name space for the fields of all records, so the fields carry a short
  prefix of their class: \<open>dt_year\<close> is \<^verbatim>\<open>DateField.year\<close>, \<open>se_duration\<close> is
  \<^verbatim>\<open>MdbSingleEx.duration\<close>, \<open>ge_width\<close> is \<^verbatim>\<open>MdbGroupedEx.width\<close>.
\<close>

record DateField =
  dt_year :: nat
  dt_month :: nat
  dt_day :: nat

record TimeField =
  tm_min :: nat
  tm_hour :: nat
  tm_second :: nat

record DateTime =
  dt :: DateField
  tm :: TimeField

definition DateTime_default :: DateTime where
  "DateTime_default =
     \<lparr>dt = \<lparr>dt_year = 0, dt_month = 0, dt_day = 0\<rparr>,
      tm = \<lparr>tm_min = 0, tm_hour = 0, tm_second = 0\<rparr>\<rparr>"

record DbVersion =
  db_minor :: nat
  db_major :: nat

record MCOVersion =
  mco_major :: nat
  mco_minor :: nat
  mco_build :: nat

text \<open>
  \<^verbatim>\<open>MdbSingleEx\<close>: the fields the decoder assigns, then those that keep the default of the
  data class and are still written to the output (\<open>se_upload_status\<close> to \<open>se_altitude\<close>).
\<close>

record MdbSingleEx =
  se_duration :: nat
  se_size :: nat
  se_file_handle :: nat
  se_media_status :: nat
  se_file_type_ex :: nat
  se_max_moment_score :: pyfloat
  se_moment_cnt :: nat
  se_ctm :: DateTime
  se_tag_cnt :: nat
  se_chp_cnt :: nat
  se_grp_no :: nat
  se_latm :: DateTime
  se_total_tag_cnt :: nat
  se_dir_no :: nat
  se_last_scan_time :: DateTime
  se_has_hdr :: nat
  se_is_clip :: nat
  se_file_scanned :: nat
  se_avc_level :: nat
  se_avc_profile :: nat
  se_protune_option :: nat
  se_aud_option :: nat
  se_has_eis :: nat
  se_f_meta_present :: nat
  se_projection :: nat
  se_lens_config :: nat
  se_camera_model :: string
  se_sub_model :: string
  se_upload_status :: nat
  se_width :: nat
  se_height :: nat
  se_media_orientation :: nat
  se_fov :: nat
  se_latitude :: "pyfloat option"
  se_longitude :: "pyfloat option"
  se_altitude :: "pyfloat option"

record GusiBlob =
  gusi_raw :: "byte list"
  session_id :: nat
  recording_id :: nat

record ContentBlob =
  blob_raw :: "byte list"
  content_id_high :: nat
  content_id_low :: nat

record MdbGroupedEx =
  ge_file_handle :: nat
  ge_frame_rate_timescale :: nat
  ge_frame_rate_duration :: nat
  ge_n_elems :: nat
  ge_grp_ctm :: DateTime
  ge_grp_no :: nat
  ge_width :: nat
  ge_height :: nat
  ge_frame_rate_duration_indicator :: nat
  ge_frame_rate_timescale_indicator :: nat
  ge_gusi_blob :: GusiBlob
  ge_f_is_subsample :: nat
  ge_f_is_progressive :: nat
  ge_f_is_progressive_indicator :: nat
  ge_grp_no_indicator :: nat
  ge_f_is_subsample_indicator :: nat
  ge_blob :: ContentBlob

record RecordHeader =
  table_id :: nat
  rh_flags :: nat
  rh_size :: nat
  next_ptr :: nat

definition HEADER_SIZE :: nat where
  "HEADER_SIZE = 0x400"

definition FILE_TYPES :: "(nat \<times> string) list" where
  "FILE_TYPES =
     [(0, ''Unknown''), (1, ''Video''), (2, ''Photo''), (3, ''Timelapse''), (4, ''Burst''),
      (5, ''Audio''), (0x1000, ''Video''), (0x1100, ''Timelapse''), (0x1200, ''Photo'')]"

definition RECORD_SIZES :: "(string \<times> (string \<times> nat) list) list" where
  "RECORD_SIZES =
     [(''hero5'',
         [(''mdb_global'', 23), (''mdb_single'', 9), (''mdb_single_ex'', 78),
          (''mdb_grouped_ex'', 57)]),
      (''hero11+'',
         [(''mdb_global'', 23), (''mdb_single'', 9), (''mdb_single_ex'', 134),
          (''mdb_grouped_ex'', 73)])]"

text \<open>\<^verbatim>\<open>d.get(key, default)\<close> on a dictionary kept as an association list.\<close>

definition dict_get :: "('k \<times> 'v) list \<Rightarrow> 'k \<Rightarrow> 'v \<Rightarrow> 'v" where
  "dict_get d k dflt = (case map_of d k of Some v \<Rightarrow> v | None \<Rightarrow> dflt)"

section \<open>Record decoders\<close>

definition OID_SIZE :: nat where
  "OID_SIZE = 8"

definition read_datetime_from_buffer :: "byte list \<Rightarrow> nat \<Rightarrow> DateTime" where
  "read_datetime_from_buffer data offset =
     (if offset + 7 \<le> length data then
        \<lparr>dt = \<lparr>dt_year = le_nat (take 2 (drop offset data)),
               dt_month = unat (data ! (offset + 2)),
               dt_day = unat (data ! (offset + 3))\<rparr>,
         tm = \<lparr>tm_min = unat (data ! (offset + 4)),
               tm_hour = unat (data ! (offset + 5)),
               tm_second = unat (data ! (offset + 6))\<rparr>\<rparr>
      else DateTime_default)"

text \<open>
  The loop of the local \<^verbatim>\<open>read_string\<close>: the state is the list of segments kept so far
  and the run of printable characters being read.
\<close>

definition close_segment :: "nat \<Rightarrow> string list \<Rightarrow> string \<Rightarrow> string list" where
  "close_segment min_segment_len segments current =
     (let seg = py_strip current
      in if min_segment_len \<le> length seg then segments @ [seg] else segments)"

fun segment_loop :: "nat \<Rightarrow> byte list \<Rightarrow> string list \<Rightarrow> string \<Rightarrow> string list" where
  "segment_loop m [] segments current =
     (if current \<noteq> [] then close_segment m segments current else segments)"
| "segment_loop m (b # raw) segments current =
     (if 32 \<le> unat b \<and> unat b < 127 then segment_loop m raw segments (current @ [chr_of_byte b])
      else if current \<noteq> [] then segment_loop m raw (close_segment m segments current) []
      else segment_loop m raw segments current)"

definition read_string :: "byte list \<Rightarrow> nat \<Rightarrow> nat \<Rightarrow> nat \<Rightarrow> string" where
  "read_string data u_offset max_len min_segment_len =
     (let off = u_offset + OID_SIZE;
          max_len' = (if length data < off + max_len then length data - off else max_len)
      in if max_len' = 0 then []
         else py_join '' ''
                (filter (\<lambda>s. s \<noteq> [])
                   (segment_loop min_segment_len (slice data off (off + max_len')) [] [])))"

definition parse_single_ex_data :: "byte list \<Rightarrow> MdbSingleEx option" where
  "parse_single_ex_data data =
     (if length data < 100 then None
      else Some \<lparr>
        se_duration = u64_at data (0 + OID_SIZE),
        se_size = u64_at data (8 + OID_SIZE),
        se_file_handle = u64_at data (16 + OID_SIZE),
        se_media_status = u32_at data (24 + OID_SIZE),
        se_file_type_ex = u32_at data (36 + OID_SIZE),
        se_max_moment_score = f32_at data (40 + OID_SIZE),
        se_moment_cnt = u16_at data (50 + OID_SIZE),
        se_ctm = read_datetime_from_buffer data (52 + OID_SIZE),
        se_tag_cnt = u16_at data (60 + OID_SIZE),
        se_chp_cnt = u16_at data (62 + OID_SIZE),
        se_grp_no = u16_at data (64 + OID_SIZE),
        se_latm = read_datetime_from_buffer data (66 + OID_SIZE),
        se_total_tag_cnt = u16_at data (74 + OID_SIZE),
        se_dir_no = u16_at data (76 + OID_SIZE),
        se_last_scan_time = read_datetime_from_buffer data (78 + OID_SIZE),
        se_has_hdr = u8_at data (85 + OID_SIZE),
        se_is_clip = u8_at data (86 + OID_SIZE),
        se_file_scanned = u8_at data (87 + OID_SIZE),
        se_avc_level = u8_at data (88 + OID_SIZE),
        se_avc_profile = u8_at data (89 + OID_SIZE),
        se_protune_option = u8_at data (90 + OID_SIZE),
        se_aud_option = u8_at data (91 + OID_SIZE),
        se_has_eis = u8_at data (92 + OID_SIZE),
        se_f_meta_present = u8_at data (93 + OID_SIZE),
        se_projection = u8_at data (94 + OID_SIZE),
        se_lens_config = u8_at data (96 + OID_SIZE),
        se_camera_model = read_string data 97 30 2,
        se_sub_model = read_string data 128 16 2,
        se_upload_status = 0,
        se_width = 0,
        se_height = 0,
        se_media_orientation = 0,
        se_fov = 0,
        se_latitude = None,
        se_longitude = None,
        se_altitude = None\<rparr>)"

text \<open>The local \<^verbatim>\<open>read_bytes\<close> of the grouped decoder.\<close>

definition read_bytes :: "byte list \<Rightarrow> nat \<Rightarrow> nat \<Rightarrow> byte list" where
  "read_bytes data u_offset len =
     (let off = u_offset + OID_SIZE
      in if off + len \<le> length data then slice data off (off + len) else [])"

definition parse_grouped_ex_data :: "byte list \<Rightarrow> MdbGroupedEx option" where
  "parse_grouped_ex_data data =
     (if length data < 50 then None
      else
        let gusi = read_bytes data 36 16;
            blob = read_bytes data 57 16
        in Some \<lparr>
          ge_file_handle = u64_at data (0 + OID_SIZE),
          ge_frame_rate_timescale = u32_at data (8 + OID_SIZE),
          ge_frame_rate_duration = u32_at data (12 + OID_SIZE),
          ge_n_elems = u32_at data (16 + OID_SIZE),
          ge_grp_ctm = read_datetime_from_buffer data (20 + OID_SIZE),
          ge_grp_no = u16_at data (28 + OID_SIZE),
          ge_width = u16_at data (30 + OID_SIZE),
          ge_height = u16_at data (32 + OID_SIZE),
          ge_frame_rate_duration_indicator = u8_at data (34 + OID_SIZE),
          ge_frame_rate_timescale_indicator = u8_at data (35 + OID_SIZE),
          ge_gusi_blob =
            \<lparr>gusi_raw = gusi,
             session_id = (if 12 \<le> length gusi then le_nat (take 4 gusi) else 0),
             recording_id = (if 12 \<le> length gusi then le_nat (take 4 (drop 8 gusi)) else 0)\<rparr>,
          ge_f_is_subsample = u8_at data (52 + OID_SIZE),
          ge_f_is_progressive = u8_at data (53 + OID_SIZE),
          ge_f_is_progressive_indicator = u8_at data (54 + OID_SIZE),
          ge_grp_no_indicator = u8_at data (55 + OID_SIZE),
          ge_f_is_subsample_indicator = u8_at data (56 + OID_SIZE),
          ge_blob =
            \<lparr>blob_raw = blob,
             content_id_high = (if 16 \<le> length blob then le_nat (take 8 blob) else 0),
             content_id_low = (if 16 \<le> length blob then le_nat (take 8 (drop 8 blob)) else 0)\<rparr>\<rparr>)"

section \<open>The parser\<close>

record GoproMDBParser =
  data :: "byte list"
  file_size :: nat
  header_valid :: bool
  db_version :: DbVersion
  mco_version :: MCOVersion
  singles_ex :: "MdbSingleEx list"
  grouped_ex :: "MdbGroupedEx list"
  raw_records :: "(RecordHeader \<times> byte list) list"
  schema_version :: string
  struct_sizes :: "(string \<times> nat) list"
  page_size :: nat
  dictionary_offset :: nat

text \<open>The state after \<^verbatim>\<open>__init__\<close>.\<close>

definition new_parser :: GoproMDBParser where
  "new_parser =
     \<lparr>data = [], file_size = 0, header_valid = False,
      db_version = \<lparr>db_minor = 0, db_major = 0\<rparr>,
      mco_version = \<lparr>mco_major = 0, mco_minor = 0, mco_build = 0\<rparr>,
      singles_ex = [], grouped_ex = [], raw_records = [],
      schema_version = ''unknown'', struct_sizes = [],
      page_size = 0, dictionary_offset = 0\<rparr>"

definition expected_magic :: "byte list" where
  "expected_magic = [0x00, 0xFF, 0xFF, 0xFF, 0xFF, 0xFF, 0xFF, 0xFF, 0xFF, 0xFF, 0xFF, 0x07]"

definition parse_header :: "GoproMDBParser \<Rightarrow> GoproMDBParser" where
  "parse_header st = st\<lparr>header_valid := (slice (data st) 0 12 = expected_magic)\<rparr>"

definition detect_schema :: "GoproMDBParser \<Rightarrow> GoproMDBParser" where
  "detect_schema st =
     (let version =
            (if bytes_contains (ascii ''camera_model'') (data st) then
               (if bytes_contains (ascii ''vmoment'') (data st) then ''hero11+''
                else ''hero9-10'')
             else if bytes_contains (ascii ''vtag'') (data st) then ''hero5-8''
             else ''legacy'')
      in st\<lparr>schema_version := version,
            struct_sizes :=
              (if version = ''hero11+''
               then [(''mdb_single_ex'', 134), (''mdb_grouped_ex'', 73)]
               else [(''mdb_single_ex'', 78), (''mdb_grouped_ex'', 57)])\<rparr>)"

text \<open>
  \<^verbatim>\<open>_detect_page_size\<close> of the parser. The probed offsets are below the file size, so
  \<^verbatim>\<open>self.data[offset]\<close> is inside the buffer (lemma \<open>range_step_below\<close>).
\<close>

definition page_probe_valid :: "byte list \<Rightarrow> nat \<Rightarrow> bool" where
  "page_probe_valid d offset =
     (let kind = unat (d ! offset) AND 0x0F
      in kind \<in> set [0, 1, 2, 3, 4, 5, 6, 7, 8, 10, 11, 12, 15]
         \<and> (let user = u16_at d (offset + 2) in user < 0x100 \<or> user = 0xFFFF))"

definition page_size_accepted :: "byte list \<Rightarrow> nat \<Rightarrow> bool" where
  "page_size_accepted d ps =
     (ps * 4 \<le> length d
      \<and> 3 \<le> length (filter (page_probe_valid d) (range_step ps (min (ps * 16) (length d)) ps)))"

definition detect_page_size :: "GoproMDBParser \<Rightarrow> GoproMDBParser" where
  "detect_page_size st =
     (let st1 = (case find (page_size_accepted (data st)) [512, 1024, 256, 2048] of
                   Some ps \<Rightarrow> st\<lparr>page_size := ps\<rparr>
                 | None \<Rightarrow> st)
      in if page_size st1 = 0 then st1\<lparr>page_size := 512\<rparr> else st1)"

text \<open>
  \<^verbatim>\<open>_parse_mco_version\<close>. Python's \<^verbatim>\<open>max(0x0C00, offset - 0x1400)\<close> is \<open>0x0C00\<close> when the
  difference is negative, as with the subtraction of naturals.
\<close>

definition version_at :: "byte list \<Rightarrow> nat \<Rightarrow> nat \<times> nat \<times> nat" where
  "version_at d offset = (u16_at d offset, u16_at d (offset + 2), u16_at d (offset + 4))"

definition parse_mco_version :: "GoproMDBParser \<Rightarrow> GoproMDBParser" where
  "parse_mco_version st =
     (let d = data st;
          st1 = (case find (\<lambda>offset. offset < length d \<and> unat (d ! offset) AND 0x0F = 4)
                        (range_step 0x800 (min 0x3000 (file_size st)) (page_size st)) of
                   Some offset \<Rightarrow> st\<lparr>dictionary_offset := max 0x0C00 (offset - 0x1400)\<rparr>
                 | None \<Rightarrow> st);
          st2 = (if dictionary_offset st1 = 0 then st1\<lparr>dictionary_offset := 0x0C10\<rparr> else st1);
          (v1, v2, v3) = version_at d 0x0C10
      in if 0x0C16 < file_size st \<and> 1 \<le> v1 \<and> v1 \<le> 15 \<and> v2 \<le> 99 \<and> v3 < 10000
         then st2\<lparr>mco_version := \<lparr>mco_major = v1, mco_minor = v2, mco_build = v3\<rparr>,
                  dictionary_offset := 0x0C10\<rparr>
         else
           (case find (\<lambda>offset. case version_at d offset of (w1, w2, w3) \<Rightarrow>
                          5 \<le> w1 \<and> w1 \<le> 10 \<and> w2 \<le> 10 \<and> 1000 \<le> w3 \<and> w3 < 3000)
                   (range_step 0x0C00 (min 0x1000 (file_size st - 6)) 2) of
              Some offset \<Rightarrow>
                (case version_at d offset of (w1, w2, w3) \<Rightarrow>
                   st2\<lparr>mco_version := \<lparr>mco_major = w1, mco_minor = w2, mco_build = w3\<rparr>,
                       dictionary_offset := offset\<rparr>)
            | None \<Rightarrow> st2))"

definition parse_config_block :: "GoproMDBParser \<Rightarrow> GoproMDBParser" where
  "parse_config_block st =
     (let config_data = slice (data st) HEADER_SIZE (HEADER_SIZE + 0x100);
          st1 = (if 8 \<le> length config_data
                 then st\<lparr>db_version := \<lparr>db_minor = u16_at (data st) (HEADER_SIZE + 2),
                                          db_major = u16_at (data st) HEADER_SIZE\<rparr>\<rparr>
                 else st)
      in parse_mco_version (detect_page_size st1))"

text \<open>
  \<^verbatim>\<open>_scan_for_records\<close>: the body of the loop for one slot, as the list of records it
  appends (none or one), and the loop over the slots. A slot offset is below
  \<open>file_size - 128\<close>, so the three reads of the slot header are inside the buffer.
\<close>

definition scan_slot :: "string \<Rightarrow> byte list \<Rightarrow> nat \<Rightarrow> (RecordHeader \<times> byte list) list" where
  "scan_slot schema d slot_start =
     (let SLOT_SIZE = 128;
          expected_sizes =
            dict_get RECORD_SIZES (if schema = ''hero11+'' then ''hero11+'' else ''hero5'')
              (dict_get RECORD_SIZES ''hero11+'' []);
          kind = unat (d ! slot_start) AND 0x0F;
          table = u16_at d (slot_start + 2);
          record_size = u32_at d (slot_start + 4)
      in if kind = 0 \<and> table \<in> set [3, 4] \<and> 40 < record_size \<and> record_size < 200 then
           (let expected =
                  dict_get expected_sizes
                    (if table = 3 then ''mdb_single_ex'' else ''mdb_grouped_ex'') 0
            in if \<bar>int record_size - int expected\<bar> < 20 then
                 (let header = \<lparr>table_id = table, rh_flags = 0, rh_size = record_size,
                                 next_ptr = 0\<rparr>;
                      data_start = slot_start + 16;
                      extended_end = min (slot_start + SLOT_SIZE + 64) (length d)
                  in [(header, slice d data_start extended_end)])
               else [])
         else [])"

definition slot_offsets :: "byte list \<Rightarrow> nat list" where
  "slot_offsets d = range_step 0x2C00 (length d - 128) 128"

definition scan_for_records :: "GoproMDBParser \<Rightarrow> GoproMDBParser" where
  "scan_for_records st =
     st\<lparr>raw_records :=
          raw_records st @ concat (map (scan_slot (schema_version st) (data st))
                                      (slot_offsets (data st)))\<rparr>"

text \<open>
  \<^verbatim>\<open>_find_and_parse_records\<close>. The table locations it computes first are not used. An
  instance of a data class is true in a condition, so \<^verbatim>\<open>if record:\<close> only drops the
  \<^verbatim>\<open>None\<close> of a decoder.
\<close>

fun parse_raw_records ::
  "(RecordHeader \<times> byte list) list \<Rightarrow> GoproMDBParser \<Rightarrow> GoproMDBParser" where
  "parse_raw_records [] st = st"
| "parse_raw_records ((header, d) # rest) st =
     parse_raw_records rest
       (if table_id header = 3 then
          (case parse_single_ex_data d of
             Some record \<Rightarrow> st\<lparr>singles_ex := singles_ex st @ [record]\<rparr>
           | None \<Rightarrow> st)
        else if table_id header = 4 then
          (case parse_grouped_ex_data d of
             Some record \<Rightarrow> st\<lparr>grouped_ex := grouped_ex st @ [record]\<rparr>
           | None \<Rightarrow> st)
        else st)"

definition find_and_parse_records :: "GoproMDBParser \<Rightarrow> GoproMDBParser" where
  "find_and_parse_records st =
     (let st1 = scan_for_records st in parse_raw_records (raw_records st1) st1)"

text \<open>
  \<^verbatim>\<open>parse\<close>, on the bytes read from the file: the value returned and the state of the
  parser afterwards.
\<close>

definition parse :: "byte list \<Rightarrow> bool \<times> GoproMDBParser" where
  "parse bytes =
     (let st = new_parser\<lparr>data := bytes, file_size := length bytes\<rparr>
      in if file_size st < HEADER_SIZE + 0x100 then (False, st)
         else (True,
               find_and_parse_records (parse_config_block (detect_schema (parse_header st)))))"

text \<open>
  The step of \<^verbatim>\<open>main\<close> after the file is known to exist: it exits with status 1 when
  \<^verbatim>\<open>parse\<close> returns false, and goes on to the output modes otherwise.
\<close>

datatype cli_step = Exit nat | Output GoproMDBParser

definition main_parse :: "byte list \<Rightarrow> cli_step" where
  "main_parse bytes = (case parse bytes of (ok, st) \<Rightarrow> if \<not> ok then Exit 1 else Output st)"

section \<open>Output dictionaries\<close>

definition datetime_to_dict :: "DateTime \<Rightarrow> pyval" where
  "datetime_to_dict t =
     (let actual_year = (if 0 < dt_year (dt t) then dt_year (dt t) + 1980 else 0)
      in PDict [
           (''year'', pnat (dt_year (dt t))),
           (''actual_year'', pnat actual_year),
           (''month'', pnat (dt_month (dt t))),
           (''day'', pnat (dt_day (dt t))),
           (''hour'', pnat (tm_hour (tm t))),
           (''minute'', pnat (tm_min (tm t))),
           (''second'', pnat (tm_second (tm t))),
           (''formatted'',
              if 0 < actual_year
              then PStr (dec actual_year @ ''-'' @ fmt_d 2 (dt_month (dt t)) @ ''-''
                         @ fmt_d 2 (dt_day (dt t)) @ '' '' @ fmt_d 2 (tm_hour (tm t)) @ '':''
                         @ fmt_d 2 (tm_min (tm t)) @ '':'' @ fmt_d 2 (tm_second (tm t)))
              else PNone)])"

definition handle_hex :: "nat \<Rightarrow> pyval" where
  "handle_hex fh = (if fh \<noteq> 0 then PStr (''0x'' @ fmt_x 16 fh) else PNone)"

definition handle_info :: "nat \<Rightarrow> pyval" where
  "handle_info fh = (if fh \<noteq> 0 then decode_file_handle fh else PNone)"

definition pfloat_opt :: "pyfloat option \<Rightarrow> pyval" where
  "pfloat_opt v = (case v of None \<Rightarrow> PNone | Some f \<Rightarrow> PFloat f)"

definition single_ex_to_dict :: "MdbSingleEx \<Rightarrow> pyval" where
  "single_ex_to_dict rec =
     PDict [
       (''file_type_ex'', pnat (se_file_type_ex rec)),
       (''file_type_name'',
          PStr (dict_get FILE_TYPES (se_file_type_ex rec) (''Type '' @ dec (se_file_type_ex rec)))),
       (''duration_raw'', pnat (se_duration rec)),
       (''duration_ms'', pnat (se_duration rec)),
       (''duration_seconds'', PFloat (TrueDiv (se_duration rec) 1000)),
       (''size'', pnat (se_size rec)),
       (''size_mb'',
          if se_size rec \<noteq> 0 then PFloat (Round2 (TrueDiv (se_size rec) (1024 * 1024)))
          else PInt 0),
       (''file_handle'', pnat (se_file_handle rec)),
       (''file_handle_hex'', handle_hex (se_file_handle rec)),
       (''file_info'', handle_info (se_file_handle rec)),
       (''camera_model'', PStr (se_camera_model rec)),
       (''sub_model'', PStr (se_sub_model rec)),
       (''full_model'',
          PStr (if se_sub_model rec \<noteq> []
                then py_strip (se_camera_model rec @ '' '' @ se_sub_model rec)
                else se_camera_model rec)),
       (''ctm'', datetime_to_dict (se_ctm rec)),
       (''last_scan_time'', datetime_to_dict (se_last_scan_time rec)),
       (''latm'', datetime_to_dict (se_latm rec)),
       (''tag_cnt'', pnat (se_tag_cnt rec)),
       (''chp_cnt'', pnat (se_chp_cnt rec)),
       (''dir_no'', pnat (se_dir_no rec)),
       (''grp_no'', pnat (se_grp_no rec)),
       (''width'', pnat (se_width rec)),
       (''height'', pnat (se_height rec)),
       (''has_eis'', pnat (se_has_eis rec)),
       (''has_hdr'', pnat (se_has_hdr rec)),
       (''is_clip'', pnat (se_is_clip rec)),
       (''projection'', pnat (se_projection rec)),
       (''lens_config'', pnat (se_lens_config rec)),
       (''avc_profile'', pnat (se_avc_profile rec)),
       (''avc_level'', pnat (se_avc_level rec)),
       (''moment_cnt'', pnat (se_moment_cnt rec)),
       (''total_tag_cnt'', pnat (se_total_tag_cnt rec)),
       (''max_moment_score'', PFloat (se_max_moment_score rec)),
       (''media_orientation'', pnat (se_media_orientation rec)),
       (''media_status'', pnat (se_media_status rec)),
       (''upload_status'', pnat (se_upload_status rec)),
       (''fov'', pnat (se_fov rec)),
       (''f_meta_present'', pnat (se_f_meta_present rec)),
       (''file_scanned'', pnat (se_file_scanned rec)),
       (''protune_option'', pnat (se_protune_option rec)),
       (''aud_option'', pnat (se_aud_option rec)),
       (''latitude'', pfloat_opt (se_latitude rec)),
       (''longitude'', pfloat_opt (se_longitude rec)),
       (''altitude'', pfloat_opt (se_altitude rec))]"

text \<open>\<^verbatim>\<open>round(x, 2)\<close>: a float for a float, and the integer itself for an integer.\<close>

definition py_round2 :: "pyval \<Rightarrow> pyval" where
  "py_round2 v = (case v of PFloat f \<Rightarrow> PFloat (Round2 f) | _ \<Rightarrow> v)"

definition id_hex8 :: "nat \<Rightarrow> pyval" where
  "id_hex8 n = (if n \<noteq> 0 then PStr (''0x'' @ fmt_x 8 n) else PNone)"

definition grouped_ex_to_dict :: "MdbGroupedEx \<Rightarrow> pyval" where
  "grouped_ex_to_dict rec =
     (let fps = (if 0 < ge_frame_rate_duration rec
                 then PFloat (TrueDiv (ge_frame_rate_timescale rec) (ge_frame_rate_duration rec))
                 else PInt 0);
          gusi = ge_gusi_blob rec;
          gusi_dict =
            (if gusi_raw gusi \<noteq> [] then
               PDict [
                 (''raw'', PStr (bytes_hex (gusi_raw gusi))),
                 (''session_id'', pnat (session_id gusi)),
                 (''session_id_hex'', id_hex8 (session_id gusi)),
                 (''recording_id'', pnat (recording_id gusi)),
                 (''recording_id_hex'', id_hex8 (recording_id gusi))]
             else PNone);
          blob = ge_blob rec;
          blob_dict =
            (if blob_raw blob \<noteq> [] then
               PDict [
                 (''raw'', PStr (bytes_hex (blob_raw blob))),
                 (''content_id_high'', pnat (content_id_high blob)),
                 (''content_id_low'', pnat (content_id_low blob)),
                 (''content_id_hex'',
                    PStr (fmt_x 16 (content_id_high blob) @ fmt_x 16 (content_id_low blob)))]
             else PNone)
      in PDict [
           (''file_handle'', pnat (ge_file_handle rec)),
           (''file_handle_hex'', handle_hex (ge_file_handle rec)),
           (''file_info'', handle_info (ge_file_handle rec)),
           (''frame_rate_timescale'', pnat (ge_frame_rate_timescale rec)),
           (''frame_rate_duration'', pnat (ge_frame_rate_duration rec)),
           (''frame_rate_fps'', py_round2 fps),
           (''n_elems'', pnat (ge_n_elems rec)),
           (''grp_no'', pnat (ge_grp_no rec)),
           (''grp_ctm'', datetime_to_dict (ge_grp_ctm rec)),
           (''width'', pnat (ge_width rec)),
           (''height'', pnat (ge_height rec)),
           (''resolution'',
              if ge_width rec \<noteq> 0 \<and> ge_height rec \<noteq> 0
              then PStr (dec (ge_width rec) @ ''x'' @ dec (ge_height rec)) else PNone),
           (''f_is_progressive'', pnat (ge_f_is_progressive rec)),
           (''f_is_subsample'', pnat (ge_f_is_subsample rec)),
           (''gusi_blob'', gusi_dict),
           (''blob'', blob_dict)])"

text \<open>The value a dictionary holds under a key (\<open>None\<close> when the key is missing).\<close>

definition entry :: "pyval \<Rightarrow> string \<Rightarrow> pyval option" where
  "entry v k = (case v of PDict kvs \<Rightarrow> map_of kvs k | _ \<Rightarrow> None)"

section \<open>The page analyzer\<close>

text \<open>
  \<^verbatim>\<open>MCOPageHeader\<close> and \<^verbatim>\<open>MCOPage\<close> of \<^verbatim>\<open>mco_page_analyzer.py\<close>. The fields of a page
  carry the prefix \<open>pg_\<close>.
\<close>

record MCOPageHeader =
  kind :: nat
  extraflags :: nat
  user :: nat
  align :: "byte list"

definition page_type :: "MCOPageHeader \<Rightarrow> nat" where
  "page_type h = kind h AND 0x0F"

definition page_flags :: "MCOPageHeader \<Rightarrow> nat" where
  "page_flags h = kind h AND 0xF0"

definition flags_desc :: "MCOPageHeader \<Rightarrow> string list" where
  "flags_desc h =
     (if page_flags h AND 0x10 \<noteq> 0 then [''COMPACT''] else [])
     @ (if page_flags h AND 0x20 \<noteq> 0 then [''HAS_BLOBS''] else [])
     @ (if page_flags h AND 0x40 \<noteq> 0 then [''FLAG_2''] else [])
     @ (if page_flags h AND 0x80 \<noteq> 0 then [''FLAG_3''] else [])"

definition from_bytes :: "byte list \<Rightarrow> MCOPageHeader" where
  "from_bytes d =
     (if length d < 8 then \<lparr>kind = 0, extraflags = 0, user = 0, align = [0, 0, 0, 0]\<rparr>
      else \<lparr>kind = unat (d ! 0), extraflags = unat (d ! 1),
            user = le_nat (take 2 (drop 2 d)), align = slice d 4 8\<rparr>)"

record MCOPage =
  pg_offset :: nat
  pg_size :: nat
  pg_header :: MCOPageHeader
  pg_data :: "byte list"

definition COMMON_PAGE_SIZES :: "nat list" where
  "COMMON_PAGE_SIZES = [256, 512, 1024, 2048, 4096]"

text \<open>One probe of \<^verbatim>\<open>MCOPageAnalyzer._detect_page_size\<close>: does the header count as valid?\<close>

definition mco_probe_valid :: "byte list \<Rightarrow> nat \<Rightarrow> bool" where
  "mco_probe_valid d off =
     (let header = from_bytes (slice d off (off + 8));
          base_kind = page_type header;
          raw_kind = kind header
      in (base_kind \<in> set [0, 1, 2, 3, 4, 5, 6, 7, 8, 10, 11, 12, 15]
          \<and> ((raw_kind AND 0xF0) \<in> set [0x00, 0x10, 0x20, 0x30] \<or> raw_kind = 0xFF)
          \<and> (user header < 0x100 \<or> user header = 0xFFFF))
         \<or> raw_kind = 0xFF \<or> raw_kind = 0x00)"

definition page_size_eligible :: "byte list \<Rightarrow> nat \<Rightarrow> bool" where
  "page_size_eligible d ps = (ps * 4 \<le> length d)"

definition page_size_score :: "byte list \<Rightarrow> nat \<Rightarrow> int" where
  "page_size_score d ps =
     (let probes = range_step ps (min (ps * 20) (length d)) ps;
          valid_count = length (filter (mco_probe_valid d) probes);
          invalid_count = length (filter (\<lambda>off. \<not> mco_probe_valid d off) probes)
      in int valid_count - int invalid_count)"

text \<open>The body of the loop over the candidates: the state is \<open>(best_ps, best_score)\<close>.\<close>

definition best_step :: "byte list \<Rightarrow> nat \<times> int \<Rightarrow> nat \<Rightarrow> nat \<times> int" where
  "best_step d best ps =
     (if page_size_eligible d ps \<and> snd best < page_size_score d ps
      then (ps, page_size_score d ps) else best)"

definition mco_detect_page_size :: "byte list \<Rightarrow> nat" where
  "mco_detect_page_size d = fst (foldl (best_step d) (1024, 0) COMMON_PAGE_SIZES)"

text \<open>
  \<^verbatim>\<open>_scan_pages\<close>: the loop from a given offset. It stops at the end of the file or at a
  page of fewer than 8 bytes; a page of at least 8 bytes means a page size of at least 8,
  so the offset grows.
\<close>

function scan_pages_from :: "byte list \<Rightarrow> nat \<Rightarrow> nat \<Rightarrow> MCOPage list" where
  "scan_pages_from d ps off =
     (if off < length d \<and> 8 \<le> length (slice d off (off + ps))
      then \<lparr>pg_offset = off, pg_size = ps,
            pg_header = from_bytes (take 8 (slice d off (off + ps))),
            pg_data = (if 8 < length (slice d off (off + ps))
                       then drop 8 (slice d off (off + ps)) else [])\<rparr>
           # scan_pages_from d ps (off + ps)
      else [])"
  by pat_completeness auto
termination
  by (relation "measure (\<lambda>(d, ps, off). length d - off)") (auto simp: slice_def)

declare scan_pages_from.simps [simp del]

definition scan_pages :: "byte list \<Rightarrow> nat \<Rightarrow> MCOPage list" where
  "scan_pages d ps = scan_pages_from d ps 0"

text \<open>\<^verbatim>\<open>_identify_unknowns\<close>: the entries one page adds to the list of unknowns.\<close>

definition known_kinds :: "nat set" where
  "known_kinds = {0, 1, 2, 3, 4, 5, 6, 7, 8, 10, 11, 12, 15}"

definition unknown_kind_entry :: "MCOPage \<Rightarrow> pyval" where
  "unknown_kind_entry page =
     PDict [
       (''type'', PStr ''unknown_page_kind''),
       (''offset'', PStr (''0x'' @ fmt_X 4 (pg_offset page))),
       (''kind'', pnat (page_type (pg_header page))),
       (''kind_hex'', PStr (''0x'' @ fmt_X 2 (kind (pg_header page)))),
       (''data_preview'',
          PStr (if pg_data page \<noteq> [] then bytes_hex (take 32 (pg_data page)) else []))]"

definition unusual_flags_entry :: "MCOPage \<Rightarrow> pyval" where
  "unusual_flags_entry page =
     PDict [
       (''type'', PStr ''unusual_flags''),
       (''offset'', PStr (''0x'' @ fmt_X 4 (pg_offset page))),
       (''flags'', pnat (page_flags (pg_header page))),
       (''flags_desc'', PList (map PStr (flags_desc (pg_header page))))]"

definition page_unknowns :: "MCOPage \<Rightarrow> pyval list" where
  "page_unknowns page =
     (let base_kind = page_type (pg_header page)
      in (if base_kind \<notin> known_kinds \<and> base_kind \<noteq> 0xFF then [unknown_kind_entry page] else [])
         @ (if page_flags (pg_header page) AND 0xC0 \<noteq> 0 then [unusual_flags_entry page]
            else []))"

definition identify_unknowns :: "MCOPage list \<Rightarrow> pyval list" where
  "identify_unknowns pages = concat (map page_unknowns pages)"

text \<open>
  \<^verbatim>\<open>analyze\<close>, on the bytes read from the file: \<open>None\<close> when it returns false. The database
  information it also collects does not enter the page size, the pages or the unknowns, and
  is left out.
\<close>

record MCOPageAnalyzer =
  a_page_size :: nat
  a_pages :: "MCOPage list"
  a_unknowns :: "pyval list"

definition analyze :: "byte list \<Rightarrow> MCOPageAnalyzer option" where
  "analyze d =
     (if length d < 0x400 then None
      else
        let ps = mco_detect_page_size d;
            pages = scan_pages d ps
        in Some \<lparr>a_page_size = ps, a_pages = pages, a_unknowns = identify_unknowns pages\<rparr>)"

section \<open>Notions used in the lemmas\<close>

text \<open>
  The size the scanner expects for a table under a schema version, and its test of a slot,
  written out once: lemma \<open>scan_slot_unfold\<close> shows that \<open>scan_slot\<close> computes exactly this.
\<close>

definition expected_size :: "string \<Rightarrow> nat \<Rightarrow> nat" where
  "expected_size schema t =
     (if schema = ''hero11+'' then (if t = 3 then 134 else 73) else (if t = 3 then 78 else 57))"

definition slot_accepted :: "string \<Rightarrow> byte list \<Rightarrow> nat \<Rightarrow> bool" where
  "slot_accepted schema d slot \<longleftrightarrow>
     unat (d ! slot) AND 0x0F = 0
     \<and> (u16_at d (slot + 2) = 3 \<or> u16_at d (slot + 2) = 4)
     \<and> 40 < u32_at d (slot + 4) \<and> u32_at d (slot + 4) < 200
     \<and> \<bar>int (u32_at d (slot + 4)) - int (expected_size schema (u16_at d (slot + 2)))\<bar> < 20"

text \<open>The schema version \<^verbatim>\<open>_detect_schema\<close> assigns to a buffer.\<close>

definition detected_schema :: "byte list \<Rightarrow> string" where
  "detected_schema b =
     (if bytes_contains (ascii ''camera_model'') b then
        (if bytes_contains (ascii ''vmoment'') b then ''hero11+'' else ''hero9-10'')
      else if bytes_contains (ascii ''vtag'') b then ''hero5-8''
      else ''legacy'')"

text \<open>What \<^verbatim>\<open>_find_and_parse_records\<close> does with one raw record, for each output list.\<close>

definition decode_single :: "RecordHeader \<times> byte list \<Rightarrow> MdbSingleEx option" where
  "decode_single r = (if table_id (fst r) = 3 then parse_single_ex_data (snd r) else None)"

definition decode_grouped :: "RecordHeader \<times> byte list \<Rightarrow> MdbGroupedEx option" where
  "decode_grouped r =
     (if table_id (fst r) \<noteq> 3 \<and> table_id (fst r) = 4 then parse_grouped_ex_data (snd r)
      else None)"

section \<open>Example files\<close>

text \<open>
  A file of the older generation: it holds \<^verbatim>\<open>vtag\<close> and not \<^verbatim>\<open>camera_model\<close>, and
  one slot at \<open>0x2C00\<close> of table 3 and record size 78. In the body handed to the decoder,
  offset 58 holds 7, offset 84 holds 100 and offsets 105 to 109 spell \<^verbatim>\<open>HERO5\<close>.
\<close>

definition slot_g_old :: "byte list" where
  "slot_g_old =
     [0x00, 0x00, 0x03, 0x00, 78, 0, 0, 0] @ replicate 8 0
     @ replicate 58 0 @ [7] @ replicate 25 0 @ [100] @ replicate 20 0
     @ [0x48, 0x45, 0x52, 0x4F, 0x35] @ replicate 66 0"

definition file_g_old :: "byte list" where
  "file_g_old = ascii ''vtag'' @ replicate (0x2C00 - 4) 0 @ slot_g_old"

text \<open>
  A file of the newer generation (it holds \<^verbatim>\<open>camera_model\<close> and \<^verbatim>\<open>vmoment\<close>) with
  one slot of table 3 whose record size is 154, that is 134 + 20.
\<close>

definition file_size_154 :: "byte list" where
  "file_size_154 =
     ascii ''camera_model'' @ ascii ''vmoment'' @ replicate (0x2C00 - 19) 0
     @ [0x00, 0x00, 0x03, 0x00, 154, 0, 0, 0] @ replicate 121 0"

text \<open>
  The shortest file with a slot: 129 bytes from \<open>0x2C00\<close> on, the slot being of table 4
  and record size 57. It starts with \<^verbatim>\<open>vtag\<close>, and all its other bytes are zero.
\<close>

definition file_min_slot :: "byte list" where
  "file_min_slot =
     ascii ''vtag'' @ replicate (0x2C00 - 4) 0
     @ [0x00, 0x00, 0x04, 0x00, 57, 0, 0, 0] @ replicate 121 0"

text \<open>A file of four pages of 256 bytes whose first page has kind 14.\<close>

definition file_string_ext :: "byte list" where
  "file_string_ext = 0x0E # replicate 1023 0"

text \<open>
  A file of 16384 bytes that holds 9 everywhere but at the multiples of 4096, where it
  holds 0.
\<close>

definition file_4096 :: "byte list" where
  "file_4096 = map (\<lambda>i. if i mod 4096 = 0 then 0 else 9) [0..<16384]"

section \<open>Byte readers: bounds and values\<close>

lemma le_nat_sum: "le_nat bs = (\<Sum>i<length bs. unat (bs ! i) * 256 ^ i)"
proof (induction bs)
  case Nil
  show ?case by simp
next
  case (Cons b bs)
  have "(\<Sum>i<Suc (length bs). unat ((b # bs) ! i) * 256 ^ i)
        = unat b + (\<Sum>i<length bs. unat (bs ! i) * 256 ^ Suc i)"
    by (subst sum.lessThan_Suc_shift) simp
  also have "\<dots> = unat b + 256 * (\<Sum>i<length bs. unat (bs ! i) * 256 ^ i)"
    by (simp add: sum_distrib_left mult.assoc mult.left_commute)
  finally show ?case using Cons.IH by simp
qed

lemma le_nat_window:
  assumes "off + w \<le> length buf"
  shows "le_nat (take w (drop off buf)) = le_value buf off w"
proof -
  have len: "length (take w (drop off buf)) = w" using assms by simp
  have "le_nat (take w (drop off buf))
        = (\<Sum>i<w. unat (take w (drop off buf) ! i) * 256 ^ i)"
    using le_nat_sum [of "take w (drop off buf)"] len by simp
  also have "\<dots> = (\<Sum>i<w. unat (buf ! (off + i)) * 256 ^ i)"
    using assms by (intro sum.cong) auto
  finally show ?thesis by (simp add: le_value_def)
qed

lemma unpack_from_nat:
  "unpack_from w buf (int off) =
     (if off + w \<le> length buf then Inr (take w (drop off buf)) else Inl StructError)"
  by (auto simp: unpack_from_def)

lemma read_u8_nat: "read_u8 buf (int off) = Inr (u8_at buf off)"
  by (simp add: read_u8_def u8_at_def py_getitem_def)

lemma read_u16_nat: "read_u16 buf (int off) = Inr (u16_at buf off)"
  using unpack_from_nat [of 2 buf off] by (simp add: read_u16_def u16_at_def)

lemma read_u32_nat: "read_u32 buf (int off) = Inr (u32_at buf off)"
  using unpack_from_nat [of 4 buf off] by (simp add: read_u32_def u32_at_def)

lemma read_u64_nat: "read_u64 buf (int off) = Inr (u64_at buf off)"
  using unpack_from_nat [of 8 buf off] by (simp add: read_u64_def u64_at_def)

lemma read_f32_nat: "read_f32 buf (int off) = Inr (f32_at buf off)"
  using unpack_from_nat [of 4 buf off] by (simp add: read_f32_def f32_at_def u32_at_def)


text \<open>
  C8. Each primitive reader, called at a byte offset \<open>off\<close> counted from the start of the
  buffer, returns a value and never raises, so it touches no index at or past the end of the
  buffer: the little-endian value of the \<open>W\<close> bytes at \<open>off\<close> when \<open>off + W\<close> is at most the
  length of the buffer, and the zero of its type otherwise. The signed reader returns the
  two's complement reading of that value, and the float readers the float of that bit pattern.
\<close>

theorem byte_readers_total_little_endian:
  "read_u8 buf (int off)
     = Inr (if off + 1 \<le> length buf then le_value buf off 1 else 0)
   \<and> read_u16 buf (int off)
     = Inr (if off + 2 \<le> length buf then le_value buf off 2 else 0)
   \<and> read_u32 buf (int off)
     = Inr (if off + 4 \<le> length buf then le_value buf off 4 else 0)
   \<and> read_u64 buf (int off)
     = Inr (if off + 8 \<le> length buf then le_value buf off 8 else 0)
   \<and> read_i32 buf (int off)
     = Inr (if off + 4 \<le> length buf then signed32 (le_value buf off 4) else 0)
   \<and> read_f32 buf (int off)
     = Inr (FloatBits32 (if off + 4 \<le> length buf then le_value buf off 4 else 0))
   \<and> read_f64 buf (int off)
     = Inr (FloatBits64 (if off + 8 \<le> length buf then le_value buf off 8 else 0))"
proof -
  have u8: "read_u8 buf (int off)
      = Inr (if off + 1 \<le> length buf then le_value buf off 1 else 0)"
    by (simp add: read_u8_def py_getitem_def le_value_def)
  have u16: "read_u16 buf (int off)
      = Inr (if off + 2 \<le> length buf then le_value buf off 2 else 0)"
    using unpack_from_nat [of 2 buf off] le_nat_window [of off 2 buf]
    by (simp add: read_u16_def)
  have u32: "read_u32 buf (int off)
      = Inr (if off + 4 \<le> length buf then le_value buf off 4 else 0)"
    using unpack_from_nat [of 4 buf off] le_nat_window [of off 4 buf]
    by (simp add: read_u32_def)
  have u64: "read_u64 buf (int off)
      = Inr (if off + 8 \<le> length buf then le_value buf off 8 else 0)"
    using unpack_from_nat [of 8 buf off] le_nat_window [of off 8 buf]
    by (simp add: read_u64_def)
  have i32: "read_i32 buf (int off)
      = Inr (if off + 4 \<le> length buf then signed32 (le_value buf off 4) else 0)"
    using unpack_from_nat [of 4 buf off] le_nat_window [of off 4 buf]
    by (simp add: read_i32_def)
  have f32: "read_f32 buf (int off)
      = Inr (FloatBits32 (if off + 4 \<le> length buf then le_value buf off 4 else 0))"
    using unpack_from_nat [of 4 buf off] le_nat_window [of off 4 buf]
    by (simp add: read_f32_def)
  have f64: "read_f64 buf (int off)
      = Inr (FloatBits64 (if off + 8 \<le> length buf then le_value buf off 8 else 0))"
    using unpack_from_nat [of 8 buf off] le_nat_window [of off 8 buf]
    by (simp add: read_f64_def)
  from u8 u16 u32 u64 i32 f32 f64 show ?thesis by blast
qed

section \<open>Formatting: lengths and round trips\<close>

lemma replicate_num: "replicate (numeral k) x = x # replicate (pred_numeral k) x"
  by (simp add: numeral_eq_Suc)

lemma and_ff: "(n::nat) AND 0xFF = n mod 256"
proof -
  have "(0xFF::nat) = mask 8" by (simp add: mask_eq_exp_minus_1)
  then have "n AND 0xFF = take_bit 8 n" by (simp only: take_bit_eq_mask)
  then show ?thesis by (simp add: take_bit_eq_mod)
qed

lemma and_ffff: "(n::nat) AND 0xFFFF = n mod 65536"
proof -
  have "(0xFFFF::nat) = mask 16" by (simp add: mask_eq_exp_minus_1)
  then have "n AND 0xFFFF = take_bit 16 n" by (simp only: take_bit_eq_mask)
  then show ?thesis by (simp add: take_bit_eq_mod)
qed

lemma and_0f: "(n::nat) AND 0x0F = n mod 16"
proof -
  have "(0x0F::nat) = mask 4" by (simp add: mask_eq_exp_minus_1)
  then have "n AND 0x0F = take_bit 4 n" by (simp only: take_bit_eq_mask)
  then show ?thesis by (simp add: take_bit_eq_mod)
qed

lemma length_zero_pad: "length (zero_pad w s) = max w (length s)"
  by (simp add: zero_pad_def)

lemma length_dec_pos: "0 < length (dec n)"
  by (subst dec.simps) simp

lemma length_dec_le: "0 < k \<Longrightarrow> n < 10 ^ k \<Longrightarrow> length (dec n) \<le> k"
proof (induction k arbitrary: n)
  case 0
  then show ?case by simp
next
  case (Suc k)
  show ?case
  proof (cases "n < 10")
    case True
    then show ?thesis by (subst dec.simps) simp
  next
    case False
    then have k: "0 < k" using Suc.prems by (cases k) auto
    have "n div 10 < 10 ^ k" using Suc.prems(2) by (simp add: less_mult_imp_div_less mult.commute)
    then have "length (dec (n div 10)) \<le> k" using Suc.IH k by blast
    then show ?thesis using False by (subst dec.simps) simp
  qed
qed

lemma length_fmt_d: "0 < w \<Longrightarrow> n < 10 ^ w \<Longrightarrow> length (fmt_d w n) = w"
  using length_dec_le [of w n] by (simp add: fmt_d_def length_zero_pad)

lemma digit_val_digit_char: "d < 10 \<Longrightarrow> digit_val (digit_char d) = d"
proof -
  assume "d < 10"
  then have "d = 0 \<or> d = 1 \<or> d = 2 \<or> d = 3 \<or> d = 4 \<or> d = 5 \<or> d = 6
    \<or> d = 7 \<or> d = 8 \<or> d = 9" by arith
  then show ?thesis by (auto simp: digit_val_def digit_char_def)
qed

lemma read_dec_snoc: "read_dec (s @ [c]) = 10 * read_dec s + digit_val c"
  by (simp add: read_dec_def)

lemma read_dec_dec: "read_dec (dec n) = n"
proof (induction n rule: dec.induct)
  case (1 n)
  show ?case
  proof (cases "n < 10")
    case True
    then show ?thesis
      by (subst dec.simps) (simp add: read_dec_def digit_val_digit_char)
  next
    case False
    then have "read_dec (dec (n div 10)) = n div 10" using 1 by simp
    then show ?thesis using False
      by (subst dec.simps) (simp add: read_dec_snoc digit_val_digit_char)
  qed
qed

lemma read_dec_zeros: "read_dec (replicate k (CHR ''0'') @ s) = read_dec s"
proof -
  have "foldl (\<lambda>a c. 10 * a + digit_val c) 0 (replicate k (CHR ''0'')) = 0"
    by (induction k) (simp_all add: digit_val_def)
  then show ?thesis by (simp add: read_dec_def)
qed

lemma read_dec_fmt_d: "read_dec (fmt_d w n) = n"
  by (simp add: fmt_d_def zero_pad_def read_dec_zeros read_dec_dec)

section \<open>File handles: decoding what was encoded\<close>

lemma handle_low16:
  fixes file_no r1 d r2 tf :: nat
  assumes "file_no < 65536"
  shows "(file_no + 65536 * r1 + 2 ^ 32 * d + 2 ^ 40 * r2 + 2 ^ 56 * tf) mod 65536 = file_no"
proof -
  have eq: "file_no + 65536 * r1 + 2 ^ 32 * d + 2 ^ 40 * r2 + 2 ^ 56 * tf
        = file_no + 65536 * (r1 + 2 ^ 16 * d + 2 ^ 24 * r2 + 2 ^ 40 * tf)"
    by simp
  have "(file_no + 65536 * (r1 + 2 ^ 16 * d + 2 ^ 24 * r2 + 2 ^ 40 * tf)) mod 65536 = file_no"
    using assms by (simp only: mod_mult_self2 mod_less)
  then show ?thesis by (simp only: eq)
qed

lemma handle_byte4:
  fixes file_no r1 d r2 tf :: nat
  assumes "file_no < 65536" "r1 < 65536" "d < 256"
  shows "(file_no + 65536 * r1 + 2 ^ 32 * d + 2 ^ 40 * r2 + 2 ^ 56 * tf) div 2 ^ 32 mod 256 = d"
proof -
  have low: "file_no + 65536 * r1 < 2 ^ 32" using assms by simp
  have "file_no + 65536 * r1 + 2 ^ 32 * d + 2 ^ 40 * r2 + 2 ^ 56 * tf
        = (file_no + 65536 * r1) + 2 ^ 32 * (d + 256 * (r2 + 2 ^ 16 * tf))"
    by simp
  then have "(file_no + 65536 * r1 + 2 ^ 32 * d + 2 ^ 40 * r2 + 2 ^ 56 * tf) div 2 ^ 32
        = d + 256 * (r2 + 2 ^ 16 * tf)"
    using low by simp
  moreover have "(d + 256 * (r2 + 2 ^ 16 * tf)) mod 256 = d"
    using assms by (simp only: mod_mult_self2 mod_less)
  ultimately show ?thesis by (simp only:)
qed

lemma handle_byte7:
  fixes file_no r1 d r2 tf :: nat
  assumes "file_no < 65536" "r1 < 65536" "d < 256" "r2 < 65536" "tf < 256"
  shows "(file_no + 65536 * r1 + 2 ^ 32 * d + 2 ^ 40 * r2 + 2 ^ 56 * tf) div 2 ^ 56 mod 256 = tf"
proof -
  have low: "file_no + 65536 * r1 + 2 ^ 32 * d + 2 ^ 40 * r2 < 2 ^ 56" using assms by simp
  have "file_no + 65536 * r1 + 2 ^ 32 * d + 2 ^ 40 * r2 + 2 ^ 56 * tf
        = (file_no + 65536 * r1 + 2 ^ 32 * d + 2 ^ 40 * r2) + 2 ^ 56 * tf"
    by simp
  then have "(file_no + 65536 * r1 + 2 ^ 32 * d + 2 ^ 40 * r2 + 2 ^ 56 * tf) div 2 ^ 56 = tf"
    using low by simp
  then show ?thesis using assms by simp
qed

text \<open>
  C9. Take any 64-bit handle whose bytes 0 and 1 hold \<open>file_no\<close> (at most 9999), whose byte 4
  holds \<open>dir\<close> (at most 255) and whose byte 7 holds \<open>tf\<close>, the other bytes being arbitrary.
  Decoding it gives the directory \<open>dir\<close> as three digits followed by \<^verbatim>\<open>GOPRO\<close>, the file
  number \<open>file_no\<close>, the type flag \<open>tf\<close>, and the path made of that directory, a slash,
  \<^verbatim>\<open>GX0\<close>, \<open>file_no\<close> as four digits and \<^verbatim>\<open>.MP4\<close>. The two numerals have exactly three
  and four digits and read back as \<open>dir\<close> and \<open>file_no\<close>.
\<close>

theorem decode_file_handle_roundtrip:
  assumes "dir \<le> 255" and "file_no \<le> 9999" and "tf \<le> 255" and "r1 < 65536" and "r2 < 65536"
  shows "decode_file_handle (file_no + 65536 * r1 + 2 ^ 32 * dir + 2 ^ 40 * r2 + 2 ^ 56 * tf)
           = PDict [
               (''directory'', PStr (fmt_d 3 dir @ ''GOPRO'')),
               (''file_number'', PInt (int file_no)),
               (''type_flag'', PInt (int tf)),
               (''estimated_path'',
                  PStr (fmt_d 3 dir @ ''GOPRO'' @ ''/'' @ ''GX0'' @ fmt_d 4 file_no @ ''.MP4''))]
         \<and> length (fmt_d 3 dir) = 3 \<and> read_dec (fmt_d 3 dir) = dir
         \<and> length (fmt_d 4 file_no) = 4 \<and> read_dec (fmt_d 4 file_no) = file_no"
proof -
  let ?fh = "file_no + 65536 * r1 + 2 ^ 32 * dir + 2 ^ 40 * r2 + 2 ^ 56 * tf"
  have f: "?fh AND 0xFFFF = file_no"
    using assms handle_low16 [of file_no r1 dir r2 tf] by (simp add: and_ffff)
  have d: "drop_bit 32 ?fh AND 0xFF = dir"
    using assms handle_byte4 [of file_no r1 dir r2 tf] by (simp add: and_ff drop_bit_eq_div)
  have t: "drop_bit 56 ?fh AND 0xFF = tf"
    using assms handle_byte7 [of file_no r1 dir r2 tf] by (simp add: and_ff drop_bit_eq_div)
  have zero: "dec 0 = ''0''" by (subst dec.simps) (simp add: digit_char_def)
  have dict: "decode_file_handle ?fh
           = PDict [
               (''directory'', PStr (fmt_d 3 dir @ ''GOPRO'')),
               (''file_number'', PInt (int file_no)),
               (''type_flag'', PInt (int tf)),
               (''estimated_path'',
                  PStr (fmt_d 3 dir @ ''GOPRO'' @ ''/'' @ ''GX0'' @ fmt_d 4 file_no @ ''.MP4''))]"
    unfolding decode_file_handle_def Let_def f d t by (simp add: pnat_def zero)
  have l3: "length (fmt_d 3 dir) = 3" using assms by (intro length_fmt_d) simp_all
  have l4: "length (fmt_d 4 file_no) = 4" using assms by (intro length_fmt_d) simp_all
  from dict l3 l4 show ?thesis by (simp add: read_dec_fmt_d)
qed

theorem decode_file_handle_roundtrip_witness:
  "(100::nat) \<le> 255 \<and> (1::nat) \<le> 9999 \<and> (1::nat) \<le> 255 \<and> (0::nat) < 65536
   \<and> decode_file_handle 0x0100006400000001
       = PDict [
           (''directory'', PStr ''100GOPRO''),
           (''file_number'', PInt 1),
           (''type_flag'', PInt 1),
           (''estimated_path'', PStr ''100GOPRO/GX00001.MP4'')]"
  using decode_file_handle_roundtrip [of 100 1 1 0 0]
  by (simp add: fmt_d_def zero_pad_def dec.simps digit_char_def replicate_num)

section \<open>Datetimes\<close>

text \<open>
  C7. Decoding the seven bytes of a datetime at an offset of a buffer that holds them all
  reads the year as the little-endian 16-bit value of bytes 0 and 1, the month from byte 2,
  the day from byte 3, the minute from byte 4, the hour from byte 5 and the second from
  byte 6; at an offset where the seven bytes are not all inside the buffer it gives the
  default datetime, whose year is 0. For every datetime, a year above 0 is written out with
  the actual year \<open>year + 1980\<close> and a formatted string, and the year 0 is written out with
  no formatted value.
\<close>

theorem datetime_decoding:
  "(off + 7 \<le> length buf \<longrightarrow>
      dt_year (dt (read_datetime_from_buffer buf off))
        = unat (buf ! off) + 256 * unat (buf ! (off + 1))
      \<and> dt_month (dt (read_datetime_from_buffer buf off)) = unat (buf ! (off + 2))
      \<and> dt_day (dt (read_datetime_from_buffer buf off)) = unat (buf ! (off + 3))
      \<and> tm_min (tm (read_datetime_from_buffer buf off)) = unat (buf ! (off + 4))
      \<and> tm_hour (tm (read_datetime_from_buffer buf off)) = unat (buf ! (off + 5))
      \<and> tm_second (tm (read_datetime_from_buffer buf off)) = unat (buf ! (off + 6)))
   \<and> (length buf < off + 7 \<longrightarrow>
        read_datetime_from_buffer buf off = DateTime_default
        \<and> entry (datetime_to_dict (read_datetime_from_buffer buf off)) ''formatted''
            = Some PNone)
   \<and> (0 < dt_year (dt t) \<longrightarrow>
        entry (datetime_to_dict t) ''actual_year'' = Some (PInt (int (dt_year (dt t)) + 1980))
        \<and> (\<exists>s. entry (datetime_to_dict t) ''formatted'' = Some (PStr s)))
   \<and> (dt_year (dt t) = 0 \<longrightarrow> entry (datetime_to_dict t) ''formatted'' = Some PNone)"
proof -
  have bytes: "off + 7 \<le> length buf \<Longrightarrow>
      le_nat (take 2 (drop off buf)) = unat (buf ! off) + 256 * unat (buf ! (off + 1))"
    using le_nat_window [of off 2 buf] by (simp add: le_value_def numeral_2_eq_2)
  show ?thesis
    using bytes
    by (simp add: read_datetime_from_buffer_def datetime_to_dict_def entry_def pnat_def Let_def
          DateTime_default_def)
qed

theorem datetime_decoding_witness:
  "dt_year (dt (read_datetime_from_buffer [0x2C, 0x00, 5, 17, 30, 12, 59] 0)) = 44
   \<and> tm_min (tm (read_datetime_from_buffer [0x2C, 0x00, 5, 17, 30, 12, 59] 0)) = 30
   \<and> tm_hour (tm (read_datetime_from_buffer [0x2C, 0x00, 5, 17, 30, 12, 59] 0)) = 12
   \<and> entry (datetime_to_dict (read_datetime_from_buffer [0x2C, 0x00, 5, 17, 30, 12, 59] 0))
        ''actual_year'' = Some (PInt 2024)
   \<and> entry (datetime_to_dict (read_datetime_from_buffer [0x2C, 0x00, 5, 17, 30, 12, 59] 0))
        ''formatted'' = Some (PStr ''2024-05-17 12:30:59'')
   \<and> entry (datetime_to_dict (read_datetime_from_buffer [0, 0, 5, 17, 30, 12, 59] 0))
        ''formatted'' = Some PNone
   \<and> length [0x2C, 0x00, 5, 17, 30, 12 :: byte] < 0 + 7
   \<and> read_datetime_from_buffer [0x2C, 0x00, 5, 17, 30, 12] 0 = DateTime_default"
  using datetime_decoding [of 0 "[0x2C, 0x00, 5, 17, 30, 12, 59]"
          "read_datetime_from_buffer [0x2C, 0x00, 5, 17, 30, 12, 59] 0"]
        datetime_decoding [of 0 "[0, 0, 5, 17, 30, 12, 59]"
          "read_datetime_from_buffer [0, 0, 5, 17, 30, 12, 59] 0"]
        datetime_decoding [of 0 "[0x2C, 0x00, 5, 17, 30, 12]" DateTime_default]
  by (simp add: read_datetime_from_buffer_def datetime_to_dict_def entry_def pnat_def Let_def
        fmt_d_def zero_pad_def dec.simps digit_char_def replicate_num)

section \<open>The slot scanner\<close>

lemma range_step_iff:
  assumes "0 < s"
  shows "x \<in> set (range_step a b s) \<longleftrightarrow> (\<exists>k. x = a + k * s \<and> a + k * s < b)"
proof -
  have "k < (b - a + s - 1) div s \<longleftrightarrow> a + k * s < b" for k
  proof -
    have "k < (b - a + s - 1) div s \<longleftrightarrow> Suc k \<le> (b - a + s - 1) div s" by auto
    also have "\<dots> \<longleftrightarrow> Suc k * s \<le> b - a + s - 1"
      using assms by (simp add: less_eq_div_iff_mult_less_eq)
    also have "\<dots> \<longleftrightarrow> a + k * s < b" using assms by auto
    finally show ?thesis .
  qed
  then show ?thesis by (auto simp: range_step_def)
qed

lemma range_step_below: "0 < s \<Longrightarrow> x \<in> set (range_step a b s) \<Longrightarrow> x < b"
  by (auto simp: range_step_iff)

lemma slot_offsets_iff:
  "slot \<in> set (slot_offsets d)
     \<longleftrightarrow> 0x2C00 \<le> slot \<and> (slot - 0x2C00) mod 128 = 0 \<and> slot + 128 < length d"
proof -
  have "slot \<in> set (slot_offsets d)
        \<longleftrightarrow> (\<exists>k. slot = 0x2C00 + k * 128 \<and> 0x2C00 + k * 128 < length d - 128)"
    by (simp add: slot_offsets_def range_step_iff)
  also have "\<dots> \<longleftrightarrow> 0x2C00 \<le> slot \<and> (slot - 0x2C00) mod 128 = 0 \<and> slot + 128 < length d"
  proof
    assume "\<exists>k. slot = 0x2C00 + k * 128 \<and> 0x2C00 + k * 128 < length d - 128"
    then show "0x2C00 \<le> slot \<and> (slot - 0x2C00) mod 128 = 0 \<and> slot + 128 < length d"
      by auto
  next
    assume r: "0x2C00 \<le> slot \<and> (slot - 0x2C00) mod 128 = 0 \<and> slot + 128 < length d"
    then have "slot = 0x2C00 + ((slot - 0x2C00) div 128) * 128"
      by (metis add.commute add_0 div_mult_mod_eq le_add_diff_inverse)
    then show "\<exists>k. slot = 0x2C00 + k * 128 \<and> 0x2C00 + k * 128 < length d - 128"
      using r by (metis less_diff_conv)
  qed
  finally show ?thesis .
qed

lemma expected_sizes_eval:
  "dict_get (dict_get RECORD_SIZES (if schema = ''hero11+'' then ''hero11+'' else ''hero5'')
               (dict_get RECORD_SIZES ''hero11+'' []))
     (if t = 3 then ''mdb_single_ex'' else ''mdb_grouped_ex'') 0
   = (if schema = ''hero11+'' then (if t = (3::nat) then 134 else 73)
      else (if t = 3 then 78 else (57::nat)))"
  by (simp add: dict_get_def RECORD_SIZES_def)

lemma scan_slot_unfold:
  "scan_slot schema d slot =
     (if slot_accepted schema d slot
      then [(\<lparr>table_id = u16_at d (slot + 2), rh_flags = 0, rh_size = u32_at d (slot + 4),
               next_ptr = 0\<rparr>,
             slice d (slot + 16) (min (slot + 192) (length d)))]
      else [])"
proof -
  have e: "slot + 128 + 64 = slot + 192" by simp
  show ?thesis
    unfolding scan_slot_def Let_def expected_sizes_eval e slot_accepted_def expected_size_def
    by auto
qed

lemma detect_page_size_keeps:
  "data (detect_page_size st) = data st" "file_size (detect_page_size st) = file_size st"
  "schema_version (detect_page_size st) = schema_version st"
  "raw_records (detect_page_size st) = raw_records st"
  "singles_ex (detect_page_size st) = singles_ex st"
  "grouped_ex (detect_page_size st) = grouped_ex st"
  by (simp_all add: detect_page_size_def Let_def split: option.splits)

lemma parse_mco_version_keeps:
  "data (parse_mco_version st) = data st"
  "schema_version (parse_mco_version st) = schema_version st"
  "raw_records (parse_mco_version st) = raw_records st"
  "singles_ex (parse_mco_version st) = singles_ex st"
  "grouped_ex (parse_mco_version st) = grouped_ex st"
  by (simp_all add: parse_mco_version_def Let_def split: option.splits prod.splits)

lemma parse_config_block_keeps:
  "data (parse_config_block st) = data st"
  "schema_version (parse_config_block st) = schema_version st"
  "raw_records (parse_config_block st) = raw_records st"
  "singles_ex (parse_config_block st) = singles_ex st"
  "grouped_ex (parse_config_block st) = grouped_ex st"
  by (simp_all add: parse_config_block_def Let_def detect_page_size_keeps parse_mco_version_keeps)

lemma detect_schema_keeps:
  "data (detect_schema st) = data st"
  "schema_version (detect_schema st) = detected_schema (data st)"
  "raw_records (detect_schema st) = raw_records st"
  "singles_ex (detect_schema st) = singles_ex st"
  "grouped_ex (detect_schema st) = grouped_ex st"
  by (simp_all add: detect_schema_def detected_schema_def Let_def)

lemma parse_raw_records_result:
  "raw_records (parse_raw_records rs st) = raw_records st
   \<and> data (parse_raw_records rs st) = data st
   \<and> schema_version (parse_raw_records rs st) = schema_version st
   \<and> singles_ex (parse_raw_records rs st) = singles_ex st @ List.map_filter decode_single rs
   \<and> grouped_ex (parse_raw_records rs st) = grouped_ex st @ List.map_filter decode_grouped rs"
proof (induction rs arbitrary: st)
  case Nil
  show ?case by (simp add: List.map_filter_simps)
next
  case (Cons r rs)
  obtain h d where r: "r = (h, d)" by (cases r)
  show ?case
    unfolding r
    by (simp add: Cons.IH List.map_filter_simps decode_single_def decode_grouped_def
          split: option.splits)
qed

lemma parse_state:
  assumes "0x500 \<le> length b"
  shows "data (snd (parse b)) = b"
    and "schema_version (snd (parse b)) = detected_schema b"
    and "raw_records (snd (parse b))
           = concat (map (scan_slot (detected_schema b) b) (slot_offsets b))"
    and "singles_ex (snd (parse b)) = List.map_filter decode_single (raw_records (snd (parse b)))"
    and "grouped_ex (snd (parse b)) = List.map_filter decode_grouped (raw_records (snd (parse b)))"
  using assms
  by (simp_all add: parse_def HEADER_SIZE_def Let_def find_and_parse_records_def
        scan_for_records_def parse_raw_records_result parse_config_block_keeps
        detect_schema_keeps parse_header_def new_parser_def)

lemma u_at_le_value:
  "off + 2 \<le> length d \<Longrightarrow> u16_at d off = le_value d off 2"
  "off + 4 \<le> length d \<Longrightarrow> u32_at d off = le_value d off 4"
  using le_nat_window [of off 2 d] le_nat_window [of off 4 d]
  by (simp_all add: u16_at_def u32_at_def)

text \<open>
  C1, as the code has it. The scanner looks at the offsets \<open>0x2C00 + 128 k\<close> that lie
  strictly below \<open>file_size - 128\<close>. It accepts such a slot if and only if the low four bits
  of its first byte are 0, the 16-bit table id at \<open>slot + 2\<close> is 3 or 4, the 32-bit record size
  at \<open>slot + 4\<close> lies strictly between 40 and 200 and differs from the expected size by
  strictly less than 20. The expected size is 134 (table 3) or 73 (table 4) when the schema
  version is \<^verbatim>\<open>hero11+\<close>, and 78 or 57 for every other schema version. The raw records of a
  parsed file are the accepted slots, in order.
\<close>

theorem slot_acceptance:
  "(slot \<in> set (slot_offsets d)
      \<longleftrightarrow> 0x2C00 \<le> slot \<and> (slot - 0x2C00) mod 128 = 0 \<and> slot + 128 < length d)
   \<and> (slot \<in> set (slot_offsets d) \<longrightarrow>
        (scan_slot schema d slot \<noteq> [] \<longleftrightarrow>
           unat (d ! slot) mod 16 = 0
           \<and> (le_value d (slot + 2) 2 = 3 \<or> le_value d (slot + 2) 2 = 4)
           \<and> 40 < le_value d (slot + 4) 4 \<and> le_value d (slot + 4) 4 < 200
           \<and> \<bar>int (le_value d (slot + 4) 4)
                - int (if schema = ''hero11+''
                       then (if le_value d (slot + 2) 2 = 3 then 134 else 73)
                       else (if le_value d (slot + 2) 2 = 3 then 78 else 57))\<bar> < 20))
   \<and> (0x500 \<le> length d \<longrightarrow>
        raw_records (snd (parse d))
          = concat (map (scan_slot (schema_version (snd (parse d))) d) (slot_offsets d)))"
proof -
  have acc: "scan_slot schema d slot \<noteq> [] \<longleftrightarrow>
           unat (d ! slot) mod 16 = 0
           \<and> (le_value d (slot + 2) 2 = 3 \<or> le_value d (slot + 2) 2 = 4)
           \<and> 40 < le_value d (slot + 4) 4 \<and> le_value d (slot + 4) 4 < 200
           \<and> \<bar>int (le_value d (slot + 4) 4)
                - int (if schema = ''hero11+''
                       then (if le_value d (slot + 2) 2 = 3 then 134 else 73)
                       else (if le_value d (slot + 2) 2 = 3 then 78 else 57))\<bar> < 20"
    if "slot \<in> set (slot_offsets d)"
  proof -
    have b: "slot + 128 < length d" using that by (simp add: slot_offsets_iff)
    have t: "u16_at d (slot + 2) = le_value d (slot + 2) 2"
      and s: "u32_at d (slot + 4) = le_value d (slot + 4) 4"
      using b by (simp_all add: u_at_le_value)
    have "scan_slot schema d slot \<noteq> [] \<longleftrightarrow> slot_accepted schema d slot"
      by (simp add: scan_slot_unfold)
    then show ?thesis
      unfolding slot_accepted_def expected_size_def t s and_0f by simp
  qed
  have raw: "raw_records (snd (parse d))
          = concat (map (scan_slot (schema_version (snd (parse d))) d) (slot_offsets d))"
    if "0x500 \<le> length d"
    using that by (simp add: parse_state(2,3))
  from acc raw slot_offsets_iff [of slot d] show ?thesis by blast
qed

section \<open>Bodies of accepted slots\<close>

lemma length_slice: "length (slice xs a b) = min (b - a) (length xs - a)"
  by (simp add: slice_def)

lemma scan_slot_record:
  assumes "slot \<in> set (slot_offsets d)" and "r \<in> set (scan_slot schema d slot)"
  shows "snd r = slice d (slot + 16) (min (slot + 192) (length d))"
    and "113 \<le> length (snd r)"
    and "table_id (fst r) = 3 \<or> table_id (fst r) = 4"
proof -
  have b: "slot + 128 < length d" using assms(1) by (simp add: slot_offsets_iff)
  have acc: "slot_accepted schema d slot" and
    r: "r = (\<lparr>table_id = u16_at d (slot + 2), rh_flags = 0, rh_size = u32_at d (slot + 4),
               next_ptr = 0\<rparr>,
             slice d (slot + 16) (min (slot + 192) (length d)))"
    using assms(2) by (auto simp: scan_slot_unfold split: if_splits)
  show "snd r = slice d (slot + 16) (min (slot + 192) (length d))" by (simp add: r)
  show "113 \<le> length (snd r)" using b by (simp add: r length_slice)
  show "table_id (fst r) = 3 \<or> table_id (fst r) = 4"
    using acc by (simp add: r slot_accepted_def)
qed

lemma decoders_accept_long:
  "100 \<le> length body \<Longrightarrow> parse_single_ex_data body \<noteq> None"
  "50 \<le> length body \<Longrightarrow> parse_grouped_ex_data body \<noteq> None"
  by (simp_all add: parse_single_ex_data_def parse_grouped_ex_data_def Let_def)

lemma map_filter_single:
  assumes "\<forall>r \<in> set rs. 100 \<le> length (snd r)"
  shows "map Some (List.map_filter decode_single rs)
         = map (parse_single_ex_data \<circ> snd) (filter (\<lambda>r. table_id (fst r) = 3) rs)"
  using assms
proof (induction rs)
  case Nil
  show ?case by (simp add: List.map_filter_simps)
next
  case (Cons r rs)
  then have "100 \<le> length (snd r)" by simp
  then obtain v where "parse_single_ex_data (snd r) = Some v"
    using decoders_accept_long(1) by blast
  then show ?case using Cons by (simp add: List.map_filter_simps decode_single_def)
qed

lemma map_filter_grouped:
  assumes "\<forall>r \<in> set rs. 50 \<le> length (snd r)"
  shows "map Some (List.map_filter decode_grouped rs)
         = map (parse_grouped_ex_data \<circ> snd) (filter (\<lambda>r. table_id (fst r) = 4) rs)"
  using assms
proof (induction rs)
  case Nil
  show ?case by (simp add: List.map_filter_simps)
next
  case (Cons r rs)
  then have "50 \<le> length (snd r)" by simp
  then obtain v where "parse_grouped_ex_data (snd r) = Some v"
    using decoders_accept_long(2) by blast
  then show ?case using Cons by (simp add: List.map_filter_simps decode_grouped_def)
qed

lemma length_by_table:
  assumes "\<forall>r \<in> set rs. table_id (fst r) = 3 \<or> table_id (fst r) = (4::nat)"
  shows "length rs = length (filter (\<lambda>r. table_id (fst r) = 3) rs)
                     + length (filter (\<lambda>r. table_id (fst r) = 4) rs)"
  using assms by (induction rs) auto

lemma raw_records_small: "length d < 0x500 \<Longrightarrow> raw_records (snd (parse d)) = []"
  "length d < 0x500 \<Longrightarrow> singles_ex (snd (parse d)) = []"
  "length d < 0x500 \<Longrightarrow> grouped_ex (snd (parse d)) = []"
  by (simp_all add: parse_def HEADER_SIZE_def new_parser_def Let_def)

lemma raw_records_props:
  assumes "r \<in> set (raw_records (snd (parse d)))"
  shows "113 \<le> length (snd r)" and "table_id (fst r) = 3 \<or> table_id (fst r) = 4"
proof -
  have big: "0x500 \<le> length d"
    using assms raw_records_small(1) [of d] by (cases "length d < 0x500") auto
  then obtain slot where "slot \<in> set (slot_offsets d)"
    and "r \<in> set (scan_slot (detected_schema d) d slot)"
    using assms by (auto simp: parse_state(3))
  then show "113 \<le> length (snd r)" and "table_id (fst r) = 3 \<or> table_id (fst r) = 4"
    using scan_slot_record by blast+
qed

lemma parse_lists:
  "map Some (singles_ex (snd (parse d)))
     = map (parse_single_ex_data \<circ> snd)
         (filter (\<lambda>r. table_id (fst r) = 3) (raw_records (snd (parse d))))"
  "map Some (grouped_ex (snd (parse d)))
     = map (parse_grouped_ex_data \<circ> snd)
         (filter (\<lambda>r. table_id (fst r) = 4) (raw_records (snd (parse d))))"
proof -
  have l: "\<forall>r \<in> set (raw_records (snd (parse d))). 100 \<le> length (snd r)"
    "\<forall>r \<in> set (raw_records (snd (parse d))). 50 \<le> length (snd r)"
    using raw_records_props(1) [of _ d] by fastforce+
  show "map Some (singles_ex (snd (parse d)))
     = map (parse_single_ex_data \<circ> snd)
         (filter (\<lambda>r. table_id (fst r) = 3) (raw_records (snd (parse d))))"
  proof (cases "length d < 0x500")
    case True
    then show ?thesis by (simp add: raw_records_small)
  next
    case False
    then show ?thesis using map_filter_single [OF l(1)] by (simp add: parse_state(4))
  qed
  show "map Some (grouped_ex (snd (parse d)))
     = map (parse_grouped_ex_data \<circ> snd)
         (filter (\<lambda>r. table_id (fst r) = 4) (raw_records (snd (parse d))))"
  proof (cases "length d < 0x500")
    case True
    then show ?thesis by (simp add: raw_records_small)
  next
    case False
    then show ?thesis using map_filter_grouped [OF l(2)] by (simp add: parse_state(5))
  qed
qed

text \<open>
  C10. Every slot the scanner looks at lies strictly below \<open>file_size - 128\<close>, and the body
  of every record it accepts there is the slice from \<open>slot + 16\<close> to the smaller of
  \<open>slot + 192\<close> and the file size, which is at least 113 bytes long; so neither decoder
  returns \<^verbatim>\<open>None\<close> on it. After \<^verbatim>\<open>parse\<close>, the list of single records is the decoding
  of the raw records of table 3, one for one and in order, the list of grouped records that
  of the raw records of table 4, and together they are as many as the raw records.
\<close>

theorem accepted_slot_bodies:
  "(\<forall>slot \<in> set (slot_offsets d). slot + 128 < length d
       \<and> (\<forall>r \<in> set (scan_slot schema d slot).
             snd r = slice d (slot + 16) (min (slot + 192) (length d))
             \<and> 113 \<le> length (snd r)
             \<and> parse_single_ex_data (snd r) \<noteq> None \<and> parse_grouped_ex_data (snd r) \<noteq> None))
   \<and> map Some (singles_ex (snd (parse d)))
       = map (parse_single_ex_data \<circ> snd)
           (filter (\<lambda>r. table_id (fst r) = 3) (raw_records (snd (parse d))))
   \<and> map Some (grouped_ex (snd (parse d)))
       = map (parse_grouped_ex_data \<circ> snd)
           (filter (\<lambda>r. table_id (fst r) = 4) (raw_records (snd (parse d))))
   \<and> length (raw_records (snd (parse d)))
       = length (singles_ex (snd (parse d))) + length (grouped_ex (snd (parse d)))"
proof -
  have slots: "\<forall>slot \<in> set (slot_offsets d). slot + 128 < length d
       \<and> (\<forall>r \<in> set (scan_slot schema d slot).
             snd r = slice d (slot + 16) (min (slot + 192) (length d))
             \<and> 113 \<le> length (snd r)
             \<and> parse_single_ex_data (snd r) \<noteq> None \<and> parse_grouped_ex_data (snd r) \<noteq> None)"
  proof (intro ballI conjI)
    fix slot assume s: "slot \<in> set (slot_offsets d)"
    then show "slot + 128 < length d" by (simp add: slot_offsets_iff)
    fix r assume r: "r \<in> set (scan_slot schema d slot)"
    show "snd r = slice d (slot + 16) (min (slot + 192) (length d))"
      using scan_slot_record(1) [OF s r] .
    have len: "113 \<le> length (snd r)" using scan_slot_record(2) [OF s r] .
    then show "113 \<le> length (snd r)" .
    show "parse_single_ex_data (snd r) \<noteq> None" using len by (intro decoders_accept_long) simp
    show "parse_grouped_ex_data (snd r) \<noteq> None" using len by (intro decoders_accept_long) simp
  qed
  have "length (raw_records (snd (parse d)))
        = length (filter (\<lambda>r. table_id (fst r) = 3) (raw_records (snd (parse d))))
          + length (filter (\<lambda>r. table_id (fst r) = 4) (raw_records (snd (parse d))))"
    using raw_records_props(2) [of _ d] by (intro length_by_table) blast
  also have "\<dots> = length (map Some (singles_ex (snd (parse d))))
                  + length (map Some (grouped_ex (snd (parse d))))"
    by (simp only: parse_lists length_map)
  finally have total: "length (raw_records (snd (parse d)))
       = length (singles_ex (snd (parse d))) + length (grouped_ex (snd (parse d)))" by simp
  from slots parse_lists total show ?thesis by blast
qed

section \<open>The decoder of \<^verbatim>\<open>mdb_single_ex\<close>\<close>

text \<open>
  The decoder takes the body alone. Whatever schema version was detected, every single
  record of a parsed file is the decoding of the body of a raw record of table 3, and the
  decoding reads each field at the unpacked offset of the Hero11 layout plus 8.
\<close>

lemma single_ex_decoder_fixed_layout:
  "(\<forall>rec \<in> set (singles_ex (snd (parse d))).
      \<exists>r \<in> set (raw_records (snd (parse d))).
        table_id (fst r) = 3 \<and> parse_single_ex_data (snd r) = Some rec)
   \<and> (parse_single_ex_data body = Some rec \<longrightarrow>
        se_duration rec = u64_at body (0 + 8)
        \<and> se_size rec = u64_at body (8 + 8)
        \<and> se_file_handle rec = u64_at body (16 + 8)
        \<and> se_media_status rec = u32_at body (24 + 8)
        \<and> se_file_type_ex rec = u32_at body (36 + 8)
        \<and> se_max_moment_score rec = FloatBits32 (u32_at body (40 + 8))
        \<and> se_moment_cnt rec = u16_at body (50 + 8)
        \<and> se_ctm rec = read_datetime_from_buffer body (52 + 8)
        \<and> se_tag_cnt rec = u16_at body (60 + 8)
        \<and> se_chp_cnt rec = u16_at body (62 + 8)
        \<and> se_grp_no rec = u16_at body (64 + 8)
        \<and> se_latm rec = read_datetime_from_buffer body (66 + 8)
        \<and> se_total_tag_cnt rec = u16_at body (74 + 8)
        \<and> se_dir_no rec = u16_at body (76 + 8)
        \<and> se_last_scan_time rec = read_datetime_from_buffer body (78 + 8)
        \<and> se_has_hdr rec = u8_at body (85 + 8)
        \<and> se_is_clip rec = u8_at body (86 + 8)
        \<and> se_file_scanned rec = u8_at body (87 + 8)
        \<and> se_avc_level rec = u8_at body (88 + 8)
        \<and> se_avc_profile rec = u8_at body (89 + 8)
        \<and> se_protune_option rec = u8_at body (90 + 8)
        \<and> se_aud_option rec = u8_at body (91 + 8)
        \<and> se_has_eis rec = u8_at body (92 + 8)
        \<and> se_f_meta_present rec = u8_at body (93 + 8)
        \<and> se_projection rec = u8_at body (94 + 8)
        \<and> se_lens_config rec = u8_at body (96 + 8)
        \<and> se_camera_model rec = read_string body 97 30 2
        \<and> se_sub_model rec = read_string body 128 16 2
        \<and> entry (single_ex_to_dict rec) ''camera_model'' = Some (PStr (se_camera_model rec))
        \<and> entry (single_ex_to_dict rec) ''sub_model'' = Some (PStr (se_sub_model rec))
        \<and> entry (single_ex_to_dict rec) ''dir_no'' = Some (PInt (int (se_dir_no rec)))
        \<and> entry (single_ex_to_dict rec) ''grp_no'' = Some (PInt (int (se_grp_no rec)))
        \<and> entry (single_ex_to_dict rec) ''moment_cnt'' = Some (PInt (int (se_moment_cnt rec)))
        \<and> entry (single_ex_to_dict rec) ''total_tag_cnt''
            = Some (PInt (int (se_total_tag_cnt rec)))
        \<and> entry (single_ex_to_dict rec) ''max_moment_score''
            = Some (PFloat (se_max_moment_score rec)))"
proof -
  have origin: "\<forall>rec \<in> set (singles_ex (snd (parse d))).
      \<exists>r \<in> set (raw_records (snd (parse d))).
        table_id (fst r) = 3 \<and> parse_single_ex_data (snd r) = Some rec"
  proof
    fix rec assume "rec \<in> set (singles_ex (snd (parse d)))"
    then have "Some rec \<in> set (map Some (singles_ex (snd (parse d))))" by simp
    then have "Some rec \<in> set (map (parse_single_ex_data \<circ> snd)
         (filter (\<lambda>r. table_id (fst r) = 3) (raw_records (snd (parse d)))))"
      by (simp only: parse_lists(1))
    then show "\<exists>r \<in> set (raw_records (snd (parse d))).
        table_id (fst r) = 3 \<and> parse_single_ex_data (snd r) = Some rec"
      by auto
  qed
  have dict: "entry (single_ex_to_dict rec) ''camera_model'' = Some (PStr (se_camera_model rec))
        \<and> entry (single_ex_to_dict rec) ''sub_model'' = Some (PStr (se_sub_model rec))
        \<and> entry (single_ex_to_dict rec) ''dir_no'' = Some (PInt (int (se_dir_no rec)))
        \<and> entry (single_ex_to_dict rec) ''grp_no'' = Some (PInt (int (se_grp_no rec)))
        \<and> entry (single_ex_to_dict rec) ''moment_cnt'' = Some (PInt (int (se_moment_cnt rec)))
        \<and> entry (single_ex_to_dict rec) ''total_tag_cnt''
            = Some (PInt (int (se_total_tag_cnt rec)))
        \<and> entry (single_ex_to_dict rec) ''max_moment_score''
            = Some (PFloat (se_max_moment_score rec))"
    by (simp add: single_ex_to_dict_def entry_def pnat_def)
  have fields: "se_duration rec = u64_at body (0 + 8)
        \<and> se_size rec = u64_at body (8 + 8)
        \<and> se_file_handle rec = u64_at body (16 + 8)
        \<and> se_media_status rec = u32_at body (24 + 8)
        \<and> se_file_type_ex rec = u32_at body (36 + 8)
        \<and> se_max_moment_score rec = FloatBits32 (u32_at body (40 + 8))
        \<and> se_moment_cnt rec = u16_at body (50 + 8)
        \<and> se_ctm rec = read_datetime_from_buffer body (52 + 8)
        \<and> se_tag_cnt rec = u16_at body (60 + 8)
        \<and> se_chp_cnt rec = u16_at body (62 + 8)
        \<and> se_grp_no rec = u16_at body (64 + 8)
        \<and> se_latm rec = read_datetime_from_buffer body (66 + 8)
        \<and> se_total_tag_cnt rec = u16_at body (74 + 8)
        \<and> se_dir_no rec = u16_at body (76 + 8)
        \<and> se_last_scan_time rec = read_datetime_from_buffer body (78 + 8)
        \<and> se_has_hdr rec = u8_at body (85 + 8)
        \<and> se_is_clip rec = u8_at body (86 + 8)
        \<and> se_file_scanned rec = u8_at body (87 + 8)
        \<and> se_avc_level rec = u8_at body (88 + 8)
        \<and> se_avc_profile rec = u8_at body (89 + 8)
        \<and> se_protune_option rec = u8_at body (90 + 8)
        \<and> se_aud_option rec = u8_at body (91 + 8)
        \<and> se_has_eis rec = u8_at body (92 + 8)
        \<and> se_f_meta_present rec = u8_at body (93 + 8)
        \<and> se_projection rec = u8_at body (94 + 8)
        \<and> se_lens_config rec = u8_at body (96 + 8)
        \<and> se_camera_model rec = read_string body 97 30 2
        \<and> se_sub_model rec = read_string body 128 16 2"
    if "parse_single_ex_data body = Some rec"
  proof -
    from that have eq: "rec = the (parse_single_ex_data body)" and "\<not> length body < 100"
      by (auto simp: parse_single_ex_data_def split: if_splits)
    then show ?thesis
      unfolding eq by (simp add: parse_single_ex_data_def OID_SIZE_def f32_at_def)
  qed
  from origin dict fields show ?thesis by blast
qed

section \<open>Frame rate\<close>

text \<open>
  C4, as the code has it. A grouped record whose \<^verbatim>\<open>frame_rate_duration\<close> is 0 is written
  out with the frame rate 0, an integer; the quotient of time scale and duration, rounded
  to two decimals, is computed only when the duration is above 0.
\<close>

theorem grouped_fps_zero_duration:
  "(ge_frame_rate_duration rec = 0 \<longrightarrow>
      entry (grouped_ex_to_dict rec) ''frame_rate_fps'' = Some (PInt 0))
   \<and> (0 < ge_frame_rate_duration rec \<longrightarrow>
        entry (grouped_ex_to_dict rec) ''frame_rate_fps''
          = Some (PFloat (Round2 (TrueDiv (ge_frame_rate_timescale rec)
                                          (ge_frame_rate_duration rec)))))"
  by (simp add: grouped_ex_to_dict_def entry_def py_round2_def Let_def)

theorem grouped_fps_zero_duration_witness:
  "map_option
     (\<lambda>rec. (ge_frame_rate_timescale rec, ge_frame_rate_duration rec,
              entry (grouped_ex_to_dict rec) ''frame_rate_fps''))
     (parse_grouped_ex_data
        (replicate 16 0 @ [0x30, 0x75, 0, 0] @ [0xE9, 0x03, 0, 0] @ replicate 89 0))
   = Some (30000, 1001, Some (PFloat (Round2 (TrueDiv 30000 1001))))
   \<and> map_option
       (\<lambda>rec. (ge_frame_rate_duration rec, entry (grouped_ex_to_dict rec) ''frame_rate_fps''))
       (parse_grouped_ex_data (replicate 113 0))
     = Some (0, Some (PInt 0))"
proof -
  let ?b = "replicate 16 0 @ [0x30, 0x75, 0, 0] @ [0xE9, 0x03, 0, 0] @ replicate 89 (0::byte)"
  have "map_option (\<lambda>rec. (ge_frame_rate_timescale rec, ge_frame_rate_duration rec))
          (parse_grouped_ex_data ?b) = Some (30000, 1001)"
    by (simp add: parse_grouped_ex_data_def Let_def OID_SIZE_def u32_at_def replicate_num)
  then obtain r1 where r1: "parse_grouped_ex_data ?b = Some r1"
    and v1: "ge_frame_rate_timescale r1 = 30000" "ge_frame_rate_duration r1 = 1001"
    by (cases "parse_grouped_ex_data ?b") auto
  have "map_option ge_frame_rate_duration (parse_grouped_ex_data (replicate 113 0)) = Some 0"
    by (simp add: parse_grouped_ex_data_def Let_def OID_SIZE_def u32_at_def replicate_num)
  then obtain r0 where r0: "parse_grouped_ex_data (replicate 113 0) = Some r0"
    and v0: "ge_frame_rate_duration r0 = 0"
    by (cases "parse_grouped_ex_data (replicate 113 0)") auto
  show ?thesis
    unfolding r1 r0
    using grouped_fps_zero_duration [of r1] grouped_fps_zero_duration [of r0]
    by (simp add: v1 v0)
qed

section \<open>Files that are too small\<close>

text \<open>
  C6. On fewer than \<open>0x500\<close> bytes \<^verbatim>\<open>parse\<close> returns false, the command line exits with
  status 1, and no raw, single or grouped record is produced. On \<open>0x500\<close> bytes or more it
  returns true and the command line goes on to its output.
\<close>

theorem parse_size_guard:
  "(length bytes < 0x500 \<longrightarrow>
      fst (parse bytes) = False \<and> main_parse bytes = Exit 1
      \<and> raw_records (snd (parse bytes)) = []
      \<and> singles_ex (snd (parse bytes)) = [] \<and> grouped_ex (snd (parse bytes)) = [])
   \<and> (0x500 \<le> length bytes \<longrightarrow>
        fst (parse bytes) = True \<and> main_parse bytes = Output (snd (parse bytes)))"
  by (simp add: parse_def main_parse_def HEADER_SIZE_def new_parser_def Let_def)

theorem parse_size_guard_witness:
  "length (replicate 100 (0::byte)) < 0x500
   \<and> fst (parse (replicate 100 0)) = False \<and> main_parse (replicate 100 0) = Exit 1
   \<and> singles_ex (snd (parse (replicate 100 0))) = []
   \<and> grouped_ex (snd (parse (replicate 100 0))) = []
   \<and> 0x500 \<le> length (replicate 0x500 (0::byte))
   \<and> fst (parse (replicate 0x500 0)) = True"
  using parse_size_guard [of "replicate 100 0"] parse_size_guard [of "replicate 0x500 0"]
  by simp

section \<open>The example files, parsed\<close>

lemma ascii_vtag: "ascii ''vtag'' = [0x76, 0x74, 0x61, 0x67]"
  by (simp add: ascii_def)

lemma ascii_camera_model: "ascii ''camera_model'' = 0x63 # ascii ''amera_model''"
  by (simp add: ascii_def)

lemma bytes_contains_hd: "bytes_contains (x # p) xs \<Longrightarrow> x \<in> set xs"
  by (induction xs) auto

lemma length_slot_g_old: "length slot_g_old = 192"
  by (simp add: slot_g_old_def)

lemma length_file_g_old: "length file_g_old = 0x2CC0"
  by (simp add: file_g_old_def length_slot_g_old ascii_vtag)

lemma schema_g_old: "detected_schema file_g_old = ''hero5-8''"
proof -
  have "0x63 \<notin> set file_g_old"
    by (simp add: file_g_old_def slot_g_old_def ascii_vtag)
  then have no: "\<not> bytes_contains (ascii ''camera_model'') file_g_old"
    unfolding ascii_camera_model using bytes_contains_hd by blast
  have yes: "bytes_contains (ascii ''vtag'') file_g_old"
    by (simp add: file_g_old_def ascii_vtag)
  show ?thesis using no yes by (simp add: detected_schema_def)
qed

lemma slots_g_old: "slot_offsets file_g_old = [0x2C00]"
  by (simp add: slot_offsets_def range_step_def length_file_g_old)

lemma drop_file_g_old: "drop 0x2C00 file_g_old = slot_g_old"
  by (simp add: file_g_old_def ascii_vtag)

lemma at_drop:
  assumes "n \<le> length xs"
  shows "u8_at xs (n + k) = u8_at (drop n xs) k"
    and "u16_at xs (n + k) = u16_at (drop n xs) k"
    and "u32_at xs (n + k) = u32_at (drop n xs) k"
    and "u64_at xs (n + k) = u64_at (drop n xs) k"
    and "slice xs (n + k) (n + j) = slice (drop n xs) k j"
  using assms
  by (auto simp: u8_at_def u16_at_def u32_at_def u64_at_def slice_def add.commute)

lemma nth_drop_fwd: "n + k < length xs \<Longrightarrow> xs ! (n + k) = drop n xs ! k"
  by simp

lemma scan_g_old:
  "scan_slot ''hero5-8'' file_g_old 0x2C00
     = [(\<lparr>table_id = 3, rh_flags = 0, rh_size = 78, next_ptr = 0\<rparr>, drop 16 slot_g_old)]"
proof -
  have len: "0x2C00 \<le> length file_g_old" by (simp add: length_file_g_old)
  have k: "file_g_old ! 0x2C00 = 0"
    using nth_drop_fwd [of 11264 0 file_g_old]
    by (simp add: drop_file_g_old length_file_g_old slot_g_old_def)
  have t: "u16_at file_g_old (0x2C00 + 2) = 3"
    by (simp only: at_drop [OF len] drop_file_g_old) (simp add: u16_at_def slot_g_old_def)
  have r: "u32_at file_g_old (0x2C00 + 4) = 78"
    by (simp only: at_drop [OF len] drop_file_g_old) (simp add: u32_at_def slot_g_old_def)
  have m: "min (0x2C00 + 192) (length file_g_old) = 0x2C00 + 192"
    by (simp add: length_file_g_old)
  have b: "slice file_g_old (0x2C00 + 16) (min (0x2C00 + 192) (length file_g_old))
           = drop 16 slot_g_old"
    by (simp only: m at_drop [OF len] drop_file_g_old) (simp add: slice_def length_slot_g_old)
  show ?thesis
    unfolding scan_slot_unfold slot_accepted_def expected_size_def k t r b by simp
qed

lemma body_g_old:
  "drop 16 slot_g_old
     = replicate 58 0 @ [7] @ replicate 25 0 @ [100] @ replicate 20 0
       @ [0x48, 0x45, 0x52, 0x4F, 0x35] @ replicate 66 0"
  by (simp add: slot_g_old_def)

lemma decode_g_old:
  "map_option (\<lambda>rec. (se_camera_model rec, se_sub_model rec, se_dir_no rec, se_grp_no rec,
                        se_moment_cnt rec, se_total_tag_cnt rec, se_max_moment_score rec))
     (parse_single_ex_data (drop 16 slot_g_old))
   = Some (''HERO5'', [], 100, 0, 7, 0, FloatBits32 0)"
  unfolding body_g_old
  by (simp add: parse_single_ex_data_def OID_SIZE_def replicate_num u64_at_def u32_at_def
        u16_at_def u8_at_def f32_at_def read_datetime_from_buffer_def read_string_def slice_def
        Let_def chr_of_byte_def close_segment_def py_strip_def py_isspace_def char_of_def bit_0)

lemma parse_g_old:
  "schema_version (snd (parse file_g_old)) = ''hero5-8''"
  "raw_records (snd (parse file_g_old))
     = [(\<lparr>table_id = 3, rh_flags = 0, rh_size = 78, next_ptr = 0\<rparr>, drop 16 slot_g_old)]"
  "map Some (singles_ex (snd (parse file_g_old))) = [parse_single_ex_data (drop 16 slot_g_old)]"
proof -
  have big: "0x500 \<le> length file_g_old" by (simp add: length_file_g_old)
  show s: "schema_version (snd (parse file_g_old)) = ''hero5-8''"
    by (simp add: parse_state(2) [OF big] schema_g_old)
  show r: "raw_records (snd (parse file_g_old))
     = [(\<lparr>table_id = 3, rh_flags = 0, rh_size = 78, next_ptr = 0\<rparr>, drop 16 slot_g_old)]"
    by (simp add: parse_state(3) [OF big] schema_g_old slots_g_old scan_g_old)
  show "map Some (singles_ex (snd (parse file_g_old))) = [parse_single_ex_data (drop 16 slot_g_old)]"
    by (simp add: parse_lists(1) r)
qed

lemma ascii_cm: "ascii ''camera_model'' = [0x63, 0x61, 0x6D, 0x65, 0x72, 0x61, 0x5F, 0x6D, 0x6F, 0x64, 0x65, 0x6C]"
  by (simp add: ascii_def)

lemma ascii_vm: "ascii ''vmoment'' = [0x76, 0x6D, 0x6F, 0x6D, 0x65, 0x6E, 0x74]"
  by (simp add: ascii_def)

lemma length_154: "length file_size_154 = 0x2C81"
  by (simp add: file_size_154_def ascii_cm ascii_vm)

lemma drop_154: "drop 0x2C00 file_size_154 = [0x00, 0x00, 0x03, 0x00, 154, 0, 0, 0] @ replicate 121 0"
  by (simp add: file_size_154_def ascii_cm ascii_vm)

lemma schema_154: "detected_schema file_size_154 = ''hero11+''"
  by (simp add: detected_schema_def file_size_154_def ascii_cm ascii_vm)

lemma slots_154: "slot_offsets file_size_154 = [0x2C00]"
  by (simp add: slot_offsets_def range_step_def length_154)

lemma header_154:
  "file_size_154 ! 0x2C00 = 0" "u16_at file_size_154 (0x2C00 + 2) = 3"
  "u32_at file_size_154 (0x2C00 + 4) = 154"
proof -
  have len: "0x2C00 \<le> length file_size_154" by (simp add: length_154)
  show "file_size_154 ! 0x2C00 = 0"
    using nth_drop_fwd [of 11264 0 file_size_154] by (simp add: drop_154 length_154)
  show "u16_at file_size_154 (0x2C00 + 2) = 3"
    by (simp only: at_drop [OF len] drop_154) (simp add: u16_at_def)
  show "u32_at file_size_154 (0x2C00 + 4) = 154"
    by (simp only: at_drop [OF len] drop_154) (simp add: u32_at_def)
qed

lemma header_154_num:
  "u16_at file_size_154 0x2C02 = 3" "u32_at file_size_154 0x2C04 = 154"
  using header_154(2,3) by simp_all

lemma length_min: "length file_min_slot = 0x2C81"
  by (simp add: file_min_slot_def ascii_vtag)

lemma drop_min:
  "drop 0x2C00 file_min_slot = [0x00, 0x00, 0x04, 0x00, 57, 0, 0, 0] @ replicate 121 0"
  by (simp add: file_min_slot_def ascii_vtag)

lemma schema_min: "detected_schema file_min_slot = ''hero5-8''"
proof -
  have "0x63 \<notin> set file_min_slot"
    by (simp add: file_min_slot_def ascii_vtag)
  then have no: "\<not> bytes_contains (ascii ''camera_model'') file_min_slot"
    unfolding ascii_camera_model using bytes_contains_hd by blast
  have yes: "bytes_contains (ascii ''vtag'') file_min_slot"
    by (simp add: file_min_slot_def ascii_vtag)
  show ?thesis using no yes by (simp add: detected_schema_def)
qed

lemma slots_min: "slot_offsets file_min_slot = [0x2C00]"
  by (simp add: slot_offsets_def range_step_def length_min)

lemma scan_min:
  "scan_slot ''hero5-8'' file_min_slot 0x2C00
     = [(\<lparr>table_id = 4, rh_flags = 0, rh_size = 57, next_ptr = 0\<rparr>, replicate 113 0)]"
proof -
  have len: "0x2C00 \<le> length file_min_slot" by (simp add: length_min)
  have k: "file_min_slot ! 0x2C00 = 0"
    using nth_drop_fwd [of 11264 0 file_min_slot] by (simp add: drop_min length_min)
  have t: "u16_at file_min_slot (0x2C00 + 2) = 4"
    by (simp only: at_drop [OF len] drop_min) (simp add: u16_at_def)
  have r: "u32_at file_min_slot (0x2C00 + 4) = 57"
    by (simp only: at_drop [OF len] drop_min) (simp add: u32_at_def)
  have m: "min (0x2C00 + 192) (length file_min_slot) = 0x2C00 + 129"
    by (simp add: length_min)
  have b: "slice file_min_slot (0x2C00 + 16) (min (0x2C00 + 192) (length file_min_slot))
           = replicate 113 0"
    by (simp only: m at_drop [OF len] drop_min) (simp add: slice_def)
  show ?thesis
    unfolding scan_slot_unfold slot_accepted_def expected_size_def k t r b by simp
qed

lemma parse_min:
  "raw_records (snd (parse file_min_slot))
     = [(\<lparr>table_id = 4, rh_flags = 0, rh_size = 57, next_ptr = 0\<rparr>, replicate 113 0)]"
  "singles_ex (snd (parse file_min_slot)) = []"
  "map Some (grouped_ex (snd (parse file_min_slot))) = [parse_grouped_ex_data (replicate 113 0)]"
proof -
  have big: "0x500 \<le> length file_min_slot" by (simp add: length_min)
  show r: "raw_records (snd (parse file_min_slot))
     = [(\<lparr>table_id = 4, rh_flags = 0, rh_size = 57, next_ptr = 0\<rparr>, replicate 113 0)]"
    by (simp add: parse_state(3) [OF big] schema_min slots_min scan_min)
  have "map Some (singles_ex (snd (parse file_min_slot))) = []"
    by (simp add: parse_lists(1) r)
  then show "singles_ex (snd (parse file_min_slot)) = []" by simp
  show "map Some (grouped_ex (snd (parse file_min_slot))) = [parse_grouped_ex_data (replicate 113 0)]"
    by (simp add: parse_lists(2) r)
qed

text \<open>
  The file of the newer generation: its slot has kind 0, table 3 and a record size that
  differs from the expected 134 by exactly 20, and the scanner does not accept it.
\<close>

theorem slot_size_tolerance_counterexample:
  "schema_version (snd (parse file_size_154)) = ''hero11+''
   \<and> slot_offsets file_size_154 = [0x2C00]
   \<and> unat (file_size_154 ! 0x2C00) AND 0x0F = 0
   \<and> u16_at file_size_154 0x2C02 = 3
   \<and> u32_at file_size_154 0x2C04 = 154
   \<and> \<bar>154 - 134\<bar> \<le> (20::int)
   \<and> scan_slot ''hero11+'' file_size_154 0x2C00 = []
   \<and> raw_records (snd (parse file_size_154)) = []"
proof -
  have big: "0x500 \<le> length file_size_154" by (simp add: length_154)
  have rej: "scan_slot ''hero11+'' file_size_154 0x2C00 = []"
    unfolding scan_slot_unfold slot_accepted_def expected_size_def header_154 by simp
  have "raw_records (snd (parse file_size_154)) = []"
    by (simp add: parse_state(3) [OF big] schema_154 slots_154 rej)
  then show ?thesis
    using rej
    by (simp add: parse_state(2) [OF big] schema_154 slots_154 header_154(1) header_154_num)
qed

text \<open>The slot of the older file, of record size 78, is accepted.\<close>

theorem slot_acceptance_witness:
  "0x2C00 \<in> set (slot_offsets file_g_old) \<and> 0x500 \<le> length file_g_old
   \<and> schema_version (snd (parse file_g_old)) = ''hero5-8''
   \<and> le_value file_g_old (0x2C00 + 2) 2 = 3 \<and> le_value file_g_old (0x2C00 + 4) 4 = 78
   \<and> raw_records (snd (parse file_g_old))
       = [(\<lparr>table_id = 3, rh_flags = 0, rh_size = 78, next_ptr = 0\<rparr>, drop 16 slot_g_old)]"
proof -
  have big: "0x500 \<le> length file_g_old" by (simp add: length_file_g_old)
  have len: "0x2C00 \<le> length file_g_old" by (simp add: length_file_g_old)
  have t: "u16_at file_g_old (0x2C00 + 2) = 3"
    by (simp only: at_drop [OF len] drop_file_g_old) (simp add: u16_at_def slot_g_old_def)
  have r: "u32_at file_g_old (0x2C00 + 4) = 78"
    by (simp only: at_drop [OF len] drop_file_g_old) (simp add: u32_at_def slot_g_old_def)
  have v: "le_value file_g_old (0x2C00 + 2) 2 = 3" "le_value file_g_old (0x2C00 + 4) 4 = 78"
    using u_at_le_value(1) [of "0x2C00 + 2" file_g_old] u_at_le_value(2) [of "0x2C00 + 4" file_g_old]
      t r by (simp_all add: length_file_g_old)
  show ?thesis
    using slot_acceptance [of 11264 file_g_old "''hero5-8''"] v
    by (simp add: parse_state(2) [OF big] schema_g_old slots_g_old scan_g_old length_file_g_old)
qed

text \<open>
  C2. The file of the older generation holds \<^verbatim>\<open>vtag\<close> and not \<^verbatim>\<open>camera_model\<close>, is
  detected as \<^verbatim>\<open>hero5-8\<close>, and its slot is accepted with the record size 78 of the older
  layout. The decoder does not take up the older layout: it reads the offsets of the Hero11
  layout, past the 8 + 78 bytes of the record, and the single record is written out with
  the camera model \<^verbatim>\<open>HERO5\<close> (body offsets 105 to 109), the directory number 100 (body
  offset 84) and the moment count 7 (body offset 58). The comments of \<^verbatim>\<open>MdbSingleEx\<close>
  give a record of the older layout 76 or 78 bytes and list these three among the fields
  added with Hero11, so a file of the older generation should have none of them.
\<close>

theorem g_old_record_read_with_new_layout:
  "bytes_contains (ascii ''vtag'') file_g_old
   \<and> \<not> bytes_contains (ascii ''camera_model'') file_g_old
   \<and> schema_version (snd (parse file_g_old)) = ''hero5-8''
   \<and> map (\<lambda>r. (table_id (fst r), rh_size (fst r))) (raw_records (snd (parse file_g_old)))
       = [(3, 78)]
   \<and> map (\<lambda>rec. (se_camera_model rec, se_dir_no rec, se_moment_cnt rec))
        (singles_ex (snd (parse file_g_old))) = [(''HERO5'', 100, 7)]
   \<and> map (\<lambda>rec. entry (single_ex_to_dict rec) ''camera_model'')
        (singles_ex (snd (parse file_g_old))) = [Some (PStr ''HERO5'')]
   \<and> map (\<lambda>rec. entry (single_ex_to_dict rec) ''dir_no'')
        (singles_ex (snd (parse file_g_old))) = [Some (PInt 100)]
   \<and> map (\<lambda>rec. entry (single_ex_to_dict rec) ''moment_cnt'')
        (singles_ex (snd (parse file_g_old))) = [Some (PInt 7)]"
proof -
  have "0x63 \<notin> set file_g_old"
    by (simp add: file_g_old_def slot_g_old_def ascii_vtag)
  then have no: "\<not> bytes_contains (ascii ''camera_model'') file_g_old"
    unfolding ascii_camera_model using bytes_contains_hd by blast
  have yes: "bytes_contains (ascii ''vtag'') file_g_old"
    by (simp add: file_g_old_def ascii_vtag)
  obtain rec where rec: "parse_single_ex_data (drop 16 slot_g_old) = Some rec"
    and f: "se_camera_model rec = ''HERO5''" "se_dir_no rec = 100" "se_moment_cnt rec = 7"
    using decode_g_old by (cases "parse_single_ex_data (drop 16 slot_g_old)") auto
  have l: "singles_ex (snd (parse file_g_old)) = [rec]"
    using parse_g_old(3) by (simp add: rec map_eq_Cons_conv)
  show ?thesis
    using no yes
    by (simp add: parse_g_old(1,2) l f single_ex_to_dict_def entry_def pnat_def)
qed

text \<open>The shortest file with a slot: a body of exactly 113 bytes, decoded to one grouped record.\<close>

theorem accepted_slot_bodies_witness:
  "slot_offsets file_min_slot = [0x2C00] \<and> 0x2C00 + 128 < length file_min_slot
   \<and> scan_slot ''hero5-8'' file_min_slot 0x2C00
       = [(\<lparr>table_id = 4, rh_flags = 0, rh_size = 57, next_ptr = 0\<rparr>, replicate 113 0)]
   \<and> length (replicate 113 (0::byte)) = 113
   \<and> parse_grouped_ex_data (replicate 113 0) \<noteq> None
   \<and> length (raw_records (snd (parse file_min_slot))) = 1
   \<and> length (singles_ex (snd (parse file_min_slot))) = 0
   \<and> length (grouped_ex (snd (parse file_min_slot))) = 1"
proof -
  have "parse_grouped_ex_data (replicate 113 0) \<noteq> None
        \<and> length (raw_records (snd (parse file_min_slot)))
            = length (singles_ex (snd (parse file_min_slot)))
              + length (grouped_ex (snd (parse file_min_slot)))"
    using accepted_slot_bodies [of file_min_slot "''hero5-8''"]
    by (auto simp: slots_min scan_min)
  then show ?thesis
    by (simp add: slots_min scan_min parse_min(1,2) length_min)
qed

text \<open>
  That grouped record has the duration 0, and its frame rate is written out as the
  integer 0, not as \<^verbatim>\<open>None\<close>.
\<close>

theorem grouped_fps_counterexample:
  "map (\<lambda>rec. (ge_frame_rate_duration rec, entry (grouped_ex_to_dict rec) ''frame_rate_fps''))
     (grouped_ex (snd (parse file_min_slot)))
   = [(0, Some (PInt 0))]"
proof -
  have z: "map_option (\<lambda>rec. ge_frame_rate_duration rec) (parse_grouped_ex_data (replicate 113 0))
           = Some 0"
    by (simp add: parse_grouped_ex_data_def Let_def OID_SIZE_def u32_at_def replicate_num)
  then obtain rec where rec: "parse_grouped_ex_data (replicate 113 0) = Some rec"
    and d: "ge_frame_rate_duration rec = 0"
    by (cases "parse_grouped_ex_data (replicate 113 0)") auto
  have l: "grouped_ex (snd (parse file_min_slot)) = [rec]"
    using parse_min(3) by (simp add: rec map_eq_Cons_conv)
  show ?thesis
    by (simp add: l d grouped_ex_to_dict_def entry_def py_round2_def Let_def)
qed

section \<open>Unknown pages\<close>

lemma page_type_less: "page_type h < 16"
  by (simp add: page_type_def and_0f)

lemma unknown_kind_iff:
  "page_type h \<notin> known_kinds \<and> page_type h \<noteq> 0xFF
     \<longleftrightarrow> page_type h = 9 \<or> page_type h = 13 \<or> page_type h = 14"
proof -
  have "page_type h < 16" by (rule page_type_less)
  then have "page_type h = 0 \<or> page_type h = 1 \<or> page_type h = 2 \<or> page_type h = 3
      \<or> page_type h = 4 \<or> page_type h = 5 \<or> page_type h = 6 \<or> page_type h = 7
      \<or> page_type h = 8 \<or> page_type h = 9 \<or> page_type h = 10 \<or> page_type h = 11
      \<or> page_type h = 12 \<or> page_type h = 13 \<or> page_type h = 14 \<or> page_type h = 15"
    by presburger
  then show ?thesis unfolding known_kinds_def by (elim disjE) simp_all
qed

lemma entries_distinct: "unknown_kind_entry p \<noteq> unusual_flags_entry q"
  by (simp add: unknown_kind_entry_def unusual_flags_entry_def)

lemma unknown_kind_entry_kind:
  "unknown_kind_entry p = unknown_kind_entry q \<Longrightarrow> page_type (pg_header p) = page_type (pg_header q)"
  by (simp add: unknown_kind_entry_def pnat_def)

lemma unusual_flags_entry_flags:
  "unusual_flags_entry p = unusual_flags_entry q \<Longrightarrow> page_flags (pg_header p) = page_flags (pg_header q)"
  by (simp add: unusual_flags_entry_def pnat_def)

lemma page_unknowns_kind_mem:
  "unknown_kind_entry p \<in> set (page_unknowns q)
     \<longleftrightarrow> unknown_kind_entry p = unknown_kind_entry q
         \<and> (page_type (pg_header q) = 9 \<or> page_type (pg_header q) = 13
             \<or> page_type (pg_header q) = 14)"
  unfolding page_unknowns_def Let_def unknown_kind_iff
  by (simp add: entries_distinct)

lemma page_unknowns_flags_mem:
  "unusual_flags_entry p \<in> set (page_unknowns q)
     \<longleftrightarrow> unusual_flags_entry p = unusual_flags_entry q
         \<and> page_flags (pg_header q) AND 0xC0 \<noteq> 0"
  unfolding page_unknowns_def Let_def
  by (simp add: entries_distinct [symmetric])

lemma identify_unknowns_mem:
  "e \<in> set (identify_unknowns pages) \<longleftrightarrow> (\<exists>q \<in> set pages. e \<in> set (page_unknowns q))"
  by (simp add: identify_unknowns_def)

text \<open>
  C5, as the code has it. For every page of a page list, the list of unknowns holds the
  page's entry of type \<^verbatim>\<open>unknown_page_kind\<close> if and only if the low four bits of its kind
  byte are 9, 13 or 14, and the page's entry of type \<^verbatim>\<open>unusual_flags\<close> if and only if its
  flags have a bit of \<open>0xC0\<close> set. A page of kind 14 is therefore reported.
\<close>

theorem unknown_pages_listed:
  "\<forall>p \<in> set pages.
      (unknown_kind_entry p \<in> set (identify_unknowns pages)
         \<longleftrightarrow> page_type (pg_header p) = 9 \<or> page_type (pg_header p) = 13
             \<or> page_type (pg_header p) = 14)
      \<and> (unusual_flags_entry p \<in> set (identify_unknowns pages)
         \<longleftrightarrow> page_flags (pg_header p) AND 0xC0 \<noteq> 0)"
proof
  fix p assume p: "p \<in> set pages"
  have 1: "unknown_kind_entry p \<in> set (identify_unknowns pages)
         \<longleftrightarrow> page_type (pg_header p) = 9 \<or> page_type (pg_header p) = 13
             \<or> page_type (pg_header p) = 14"
  proof
    assume "unknown_kind_entry p \<in> set (identify_unknowns pages)"
    then obtain q where "q \<in> set pages" and e: "unknown_kind_entry p = unknown_kind_entry q"
      and u: "page_type (pg_header q) = 9 \<or> page_type (pg_header q) = 13
              \<or> page_type (pg_header q) = 14"
      unfolding identify_unknowns_mem page_unknowns_kind_mem by blast
    from e have "page_type (pg_header p) = page_type (pg_header q)"
      by (rule unknown_kind_entry_kind)
    with u show "page_type (pg_header p) = 9 \<or> page_type (pg_header p) = 13
             \<or> page_type (pg_header p) = 14" by simp
  next
    assume "page_type (pg_header p) = 9 \<or> page_type (pg_header p) = 13
             \<or> page_type (pg_header p) = 14"
    then have "unknown_kind_entry p \<in> set (page_unknowns p)"
      unfolding page_unknowns_kind_mem by simp
    with p show "unknown_kind_entry p \<in> set (identify_unknowns pages)"
      unfolding identify_unknowns_mem by blast
  qed
  have 2: "unusual_flags_entry p \<in> set (identify_unknowns pages)
         \<longleftrightarrow> page_flags (pg_header p) AND 0xC0 \<noteq> 0"
  proof
    assume "unusual_flags_entry p \<in> set (identify_unknowns pages)"
    then obtain q where "q \<in> set pages" and e: "unusual_flags_entry p = unusual_flags_entry q"
      and u: "page_flags (pg_header q) AND 0xC0 \<noteq> 0"
      unfolding identify_unknowns_mem page_unknowns_flags_mem by blast
    from e have "page_flags (pg_header p) = page_flags (pg_header q)"
      by (rule unusual_flags_entry_flags)
    with u show "page_flags (pg_header p) AND 0xC0 \<noteq> 0" by simp
  next
    assume "page_flags (pg_header p) AND 0xC0 \<noteq> 0"
    then have "unusual_flags_entry p \<in> set (page_unknowns p)"
      unfolding page_unknowns_flags_mem by simp
    with p show "unusual_flags_entry p \<in> set (identify_unknowns pages)"
      unfolding identify_unknowns_mem by blast
  qed
  from 1 2 show "(unknown_kind_entry p \<in> set (identify_unknowns pages)
         \<longleftrightarrow> page_type (pg_header p) = 9 \<or> page_type (pg_header p) = 13
             \<or> page_type (pg_header p) = 14)
      \<and> (unusual_flags_entry p \<in> set (identify_unknowns pages)
         \<longleftrightarrow> page_flags (pg_header p) AND 0xC0 \<noteq> 0)" by blast
qed

lemma len_fse: "length file_string_ext = 1024" by (simp add: file_string_ext_def)

lemma slice_zeros:
  "0 < a \<Longrightarrow> a + n \<le> 1024 \<Longrightarrow> slice file_string_ext a (a + n) = replicate n 0"
  by (cases a) (auto simp: slice_def file_string_ext_def min_def)

lemma from_bytes_zeros: "from_bytes (replicate 8 0) = \<lparr>kind = 0, extraflags = 0, user = 0, align = [0,0,0,0]\<rparr>"
  by (simp add: from_bytes_def slice_def replicate_num)

lemma probe_fse: "0 < a \<Longrightarrow> a + 8 \<le> 1024 \<Longrightarrow> mco_probe_valid file_string_ext a"
  by (simp add: mco_probe_valid_def slice_zeros from_bytes_zeros Let_def)

lemma score_fse: "page_size_score file_string_ext 256 = 3"
  by (simp add: page_size_score_def len_fse range_step_def upt_conv_Cons probe_fse Let_def)

lemma detect_fse: "mco_detect_page_size file_string_ext = 256"
  by (simp add: mco_detect_page_size_def COMMON_PAGE_SIZES_def best_step_def
        page_size_eligible_def len_fse score_fse)

lemma slice_first: "slice file_string_ext 0 256 = 0x0E # replicate 255 0"
  by (simp add: slice_def file_string_ext_def replicate_num [of _ 0])

lemma pages_fse:
  "scan_pages file_string_ext 256 =
     [\<lparr>pg_offset = 0, pg_size = 256,
       pg_header = \<lparr>kind = 14, extraflags = 0, user = 0, align = [0, 0, 0, 0]\<rparr>,
       pg_data = replicate 248 0\<rparr>,
      \<lparr>pg_offset = 256, pg_size = 256,
       pg_header = \<lparr>kind = 0, extraflags = 0, user = 0, align = [0, 0, 0, 0]\<rparr>,
       pg_data = replicate 248 0\<rparr>,
      \<lparr>pg_offset = 512, pg_size = 256,
       pg_header = \<lparr>kind = 0, extraflags = 0, user = 0, align = [0, 0, 0, 0]\<rparr>,
       pg_data = replicate 248 0\<rparr>,
      \<lparr>pg_offset = 768, pg_size = 256,
       pg_header = \<lparr>kind = 0, extraflags = 0, user = 0, align = [0, 0, 0, 0]\<rparr>,
       pg_data = replicate 248 0\<rparr>]"
proof -
  have h0: "from_bytes (take 8 (0x0E # replicate 255 0))
            = \<lparr>kind = 14, extraflags = 0, user = 0, align = [0, 0, 0, 0]\<rparr>"
    by (simp add: from_bytes_def slice_def replicate_num)
  have s1: "slice file_string_ext 256 512 = replicate 256 0"
    and s2: "slice file_string_ext 512 768 = replicate 256 0"
    and s3: "slice file_string_ext 768 1024 = replicate 256 0"
    using slice_zeros [of 256 256] slice_zeros [of 512 256] slice_zeros [of 768 256]
    by simp_all
  have e: "scan_pages_from file_string_ext 256 1024 = []"
    by (subst scan_pages_from.simps) (simp add: len_fse)
  have p3: "scan_pages_from file_string_ext 256 768 =
     [\<lparr>pg_offset = 768, pg_size = 256,
       pg_header = \<lparr>kind = 0, extraflags = 0, user = 0, align = [0, 0, 0, 0]\<rparr>,
       pg_data = replicate 248 0\<rparr>]"
    by (subst scan_pages_from.simps) (simp add: len_fse s3 e from_bytes_zeros)
  have p2: "scan_pages_from file_string_ext 256 512 =
     \<lparr>pg_offset = 512, pg_size = 256,
       pg_header = \<lparr>kind = 0, extraflags = 0, user = 0, align = [0, 0, 0, 0]\<rparr>,
       pg_data = replicate 248 0\<rparr> # scan_pages_from file_string_ext 256 768"
    by (subst scan_pages_from.simps) (simp add: len_fse s2 from_bytes_zeros)
  have p1: "scan_pages_from file_string_ext 256 256 =
     \<lparr>pg_offset = 256, pg_size = 256,
       pg_header = \<lparr>kind = 0, extraflags = 0, user = 0, align = [0, 0, 0, 0]\<rparr>,
       pg_data = replicate 248 0\<rparr> # scan_pages_from file_string_ext 256 512"
    by (subst scan_pages_from.simps) (simp add: len_fse s1 from_bytes_zeros)
  have p0: "scan_pages_from file_string_ext 256 0 =
     \<lparr>pg_offset = 0, pg_size = 256,
       pg_header = \<lparr>kind = 14, extraflags = 0, user = 0, align = [0, 0, 0, 0]\<rparr>,
       pg_data = replicate 248 0\<rparr> # scan_pages_from file_string_ext 256 256"
    by (subst scan_pages_from.simps) (simp add: len_fse slice_first h0 del: take_Cons_numeral)
  show ?thesis by (simp only: scan_pages_def p0 p1 p2 p3)
qed

lemma hex_zeros: "bytes_hex (replicate n 0) = replicate (2 * n) (CHR ''0'')"
proof (induction n)
  case 0
  show ?case by (simp add: bytes_hex_def)
next
  case (Suc n)
  have "fmt_x 2 0 = ''00''"
    by (simp add: fmt_x_def zero_pad_def hex_lower.simps digit_char_def replicate_num)
  then show ?case using Suc by (simp add: bytes_hex_def)
qed

lemma unknowns_fse:
  "map_option a_unknowns (analyze file_string_ext)
     = Some [PDict [
         (''type'', PStr ''unknown_page_kind''),
         (''offset'', PStr ''0x0000''),
         (''kind'', PInt 14),
         (''kind_hex'', PStr ''0x0E''),
         (''data_preview'', PStr (replicate 64 (CHR ''0'')))]]"
  by (simp add: analyze_def len_fse detect_fse pages_fse identify_unknowns_def page_unknowns_def
        page_type_def page_flags_def known_kinds_def unknown_kind_entry_def pnat_def hex_zeros
        fmt_X_def zero_pad_def hex_upper.simps digit_char_upper_def replicate_num [of _ "CHR ''0''"] Let_def)

text \<open>
  The analysis of the file whose first page has kind 14: the page size is 256, and the
  one unknown reported is that page.
\<close>

theorem string_ext_unknown_counterexample:
  "map_option a_page_size (analyze file_string_ext) = Some 256
   \<and> map_option (\<lambda>a. map (\<lambda>p. page_type (pg_header p)) (a_pages a)) (analyze file_string_ext)
       = Some [14, 0, 0, 0]
   \<and> map_option a_unknowns (analyze file_string_ext)
       = Some [PDict [
           (''type'', PStr ''unknown_page_kind''),
           (''offset'', PStr ''0x0000''),
           (''kind'', PInt 14),
           (''kind_hex'', PStr ''0x0E''),
           (''data_preview'', PStr (replicate 64 (CHR ''0'')))]]"
proof -
  have "map_option a_page_size (analyze file_string_ext) = Some 256
   \<and> map_option (\<lambda>a. map (\<lambda>p. page_type (pg_header p)) (a_pages a)) (analyze file_string_ext)
       = Some [14, 0, 0, 0]"
    by (simp add: analyze_def len_fse detect_fse pages_fse page_type_def Let_def)
  then show ?thesis using unknowns_fse by simp
qed

theorem unknown_pages_listed_witness:
  "\<lparr>pg_offset = 0, pg_size = 256,
     pg_header = \<lparr>kind = 14, extraflags = 0, user = 0, align = [0, 0, 0, 0]\<rparr>,
     pg_data = replicate 248 0\<rparr> \<in> set (scan_pages file_string_ext 256)
   \<and> unknown_kind_entry
        \<lparr>pg_offset = 0, pg_size = 256,
         pg_header = \<lparr>kind = 14, extraflags = 0, user = 0, align = [0, 0, 0, 0]\<rparr>,
         pg_data = replicate 248 0\<rparr>
       \<in> set (identify_unknowns (scan_pages file_string_ext 256))
   \<and> unusual_flags_entry
        \<lparr>pg_offset = 0, pg_size = 256,
         pg_header = \<lparr>kind = 14, extraflags = 0, user = 0, align = [0, 0, 0, 0]\<rparr>,
         pg_data = replicate 248 0\<rparr>
       \<notin> set (identify_unknowns (scan_pages file_string_ext 256))
   \<and> identify_unknowns
        [\<lparr>pg_offset = 0, pg_size = 256,
          pg_header = \<lparr>kind = 0x49, extraflags = 0, user = 0, align = [0, 0, 0, 0]\<rparr>,
          pg_data = []\<rparr>]
       = [unknown_kind_entry
            \<lparr>pg_offset = 0, pg_size = 256,
             pg_header = \<lparr>kind = 0x49, extraflags = 0, user = 0, align = [0, 0, 0, 0]\<rparr>,
             pg_data = []\<rparr>,
          unusual_flags_entry
            \<lparr>pg_offset = 0, pg_size = 256,
             pg_header = \<lparr>kind = 0x49, extraflags = 0, user = 0, align = [0, 0, 0, 0]\<rparr>,
             pg_data = []\<rparr>]"
proof -
  let ?q = "\<lparr>pg_offset = 0, pg_size = 256,
     pg_header = \<lparr>kind = 0x49, extraflags = 0, user = 0, align = [0, 0, 0, 0]\<rparr>,
     pg_data = []\<rparr>"
  have q: "identify_unknowns [?q] = [unknown_kind_entry ?q, unusual_flags_entry ?q]"
    by (simp add: identify_unknowns_def page_unknowns_def page_type_def page_flags_def
          known_kinds_def)
  let ?p = "\<lparr>pg_offset = 0, pg_size = 256,
     pg_header = \<lparr>kind = 14, extraflags = 0, user = 0, align = [0, 0, 0, 0]\<rparr>,
     pg_data = replicate 248 0\<rparr>"
  have mem: "?p \<in> set (scan_pages file_string_ext 256)" by (simp add: pages_fse)
  have t: "page_type (pg_header ?p) = 14" by (simp add: page_type_def)
  have f: "page_flags (pg_header ?p) AND 0xC0 = 0" by (simp add: page_flags_def)
  from unknown_pages_listed [of "scan_pages file_string_ext 256"] mem
  have "(unknown_kind_entry ?p \<in> set (identify_unknowns (scan_pages file_string_ext 256))
         \<longleftrightarrow> page_type (pg_header ?p) = 9 \<or> page_type (pg_header ?p) = 13
             \<or> page_type (pg_header ?p) = 14)
      \<and> (unusual_flags_entry ?p \<in> set (identify_unknowns (scan_pages file_string_ext 256))
         \<longleftrightarrow> page_flags (pg_header ?p) AND 0xC0 \<noteq> 0)"
    by (rule bspec)
  then show ?thesis using mem t f q by simp
qed

section \<open>Page size\<close>

lemma best_step_cases:
  "best_step d r x = (if page_size_eligible d x \<and> snd r < page_size_score d x
                      then (x, page_size_score d x) else r)"
  by (simp add: best_step_def)

lemma best_fold_bounds:
  "s0 \<le> snd (foldl (best_step d) (p0, s0) xs)
   \<and> (\<forall>x \<in> set xs. page_size_eligible d x
          \<longrightarrow> page_size_score d x \<le> snd (foldl (best_step d) (p0, s0) xs))"
proof (induction xs rule: rev_induct)
  case Nil
  show ?case by simp
next
  case (snoc x xs)
  define r where "r = foldl (best_step d) (p0, s0) xs"
  have ih: "s0 \<le> snd r" "\<forall>y \<in> set xs. page_size_eligible d y \<longrightarrow> page_size_score d y \<le> snd r"
    using snoc.IH by (simp_all add: r_def)
  have step: "foldl (best_step d) (p0, s0) (xs @ [x]) = best_step d r x" by (simp add: r_def)
  show ?case
  proof (cases "page_size_eligible d x \<and> snd r < page_size_score d x")
    case True
    then have "best_step d r x = (x, page_size_score d x)" by (simp add: best_step_cases)
    then show ?thesis unfolding step using ih True by fastforce
  next
    case False
    then have "best_step d r x = r" by (auto simp: best_step_cases)
    then show ?thesis unfolding step using ih False by fastforce
  qed
qed

lemma best_fold:
  "(foldl (best_step d) (p0, s0) xs = (p0, s0)
      \<and> (\<forall>x \<in> set xs. page_size_eligible d x \<longrightarrow> page_size_score d x \<le> s0))
   \<or> (\<exists>ys zs. xs = ys @ fst (foldl (best_step d) (p0, s0) xs) # zs
         \<and> page_size_eligible d (fst (foldl (best_step d) (p0, s0) xs))
         \<and> page_size_score d (fst (foldl (best_step d) (p0, s0) xs))
             = snd (foldl (best_step d) (p0, s0) xs)
         \<and> s0 < snd (foldl (best_step d) (p0, s0) xs)
         \<and> (\<forall>y \<in> set ys. page_size_eligible d y
                \<longrightarrow> page_size_score d y < snd (foldl (best_step d) (p0, s0) xs)))"
proof (induction xs rule: rev_induct)
  case Nil
  show ?case by simp
next
  case (snoc x xs)
  define r where "r = foldl (best_step d) (p0, s0) xs"
  have step: "foldl (best_step d) (p0, s0) (xs @ [x]) = best_step d r x" by (simp add: r_def)
  have bounds: "s0 \<le> snd r"
    "\<forall>y \<in> set xs. page_size_eligible d y \<longrightarrow> page_size_score d y \<le> snd r"
    using best_fold_bounds [of s0 d p0 xs] by (simp_all add: r_def)
  have ih: "(r = (p0, s0)
      \<and> (\<forall>x \<in> set xs. page_size_eligible d x \<longrightarrow> page_size_score d x \<le> s0))
   \<or> (\<exists>ys zs. xs = ys @ fst r # zs \<and> page_size_eligible d (fst r)
         \<and> page_size_score d (fst r) = snd r \<and> s0 < snd r
         \<and> (\<forall>y \<in> set ys. page_size_eligible d y \<longrightarrow> page_size_score d y < snd r))"
    using snoc.IH by (simp only: r_def)
  show ?case
  proof (cases "page_size_eligible d x \<and> snd r < page_size_score d x")
    case True
    then have r': "best_step d r x = (x, page_size_score d x)" by (simp add: best_step_cases)
    have 1: "xs @ [x] = xs @ x # []" by simp
    have 2: "s0 < page_size_score d x" using bounds(1) True by linarith
    have 3: "\<forall>y \<in> set xs. page_size_eligible d y \<longrightarrow> page_size_score d y < page_size_score d x"
    proof (intro ballI impI)
      fix y assume "y \<in> set xs" "page_size_eligible d y"
      then have "page_size_score d y \<le> snd r" using bounds(2) by blast
      then show "page_size_score d y < page_size_score d x" using True by linarith
    qed
    have "\<exists>ys zs. xs @ [x] = ys @ x # zs \<and> page_size_eligible d x
         \<and> page_size_score d x = page_size_score d x \<and> s0 < page_size_score d x
         \<and> (\<forall>y \<in> set ys. page_size_eligible d y \<longrightarrow> page_size_score d y < page_size_score d x)"
      using 1 2 3 True by blast
    then show ?thesis unfolding step r' by simp
  next
    case False
    then have r': "best_step d r x = r" by (auto simp: best_step_cases)
    from ih show ?thesis
    proof
      assume a: "r = (p0, s0)
          \<and> (\<forall>x \<in> set xs. page_size_eligible d x \<longrightarrow> page_size_score d x \<le> s0)"
      then have "page_size_eligible d x \<longrightarrow> page_size_score d x \<le> s0" using False by auto
      then show ?thesis unfolding step r' using a by simp
    next
      assume "\<exists>ys zs. xs = ys @ fst r # zs \<and> page_size_eligible d (fst r)
         \<and> page_size_score d (fst r) = snd r \<and> s0 < snd r
         \<and> (\<forall>y \<in> set ys. page_size_eligible d y \<longrightarrow> page_size_score d y < snd r)"
      then obtain ys zs where b: "xs = ys @ fst r # zs" "page_size_eligible d (fst r)"
        "page_size_score d (fst r) = snd r" "s0 < snd r"
        "\<forall>y \<in> set ys. page_size_eligible d y \<longrightarrow> page_size_score d y < snd r"
        by blast
      have "xs @ [x] = ys @ fst r # (zs @ [x])" using b(1) by simp
      then have "\<exists>ys zs. xs @ [x] = ys @ fst r # zs \<and> page_size_eligible d (fst r)
         \<and> page_size_score d (fst r) = snd r \<and> s0 < snd r
         \<and> (\<forall>y \<in> set ys. page_size_eligible d y \<longrightarrow> page_size_score d y < snd r)"
        using b(2-5) by blast
      then show ?thesis unfolding step r' by blast
    qed
  qed
qed

lemma common_sorted: "sorted_wrt (<) COMMON_PAGE_SIZES"
  by (simp add: COMMON_PAGE_SIZES_def)

lemma listed_before:
  assumes "sorted_wrt (<) (ys @ p # zs)" and "x \<in> set (ys @ p # zs)" and "x < (p::nat)"
  shows "x \<in> set ys"
proof -
  have "\<forall>z \<in> set zs. p < z" using assms(1) by (simp add: sorted_wrt_append)
  then show ?thesis using assms(2,3) by auto
qed

text \<open>
  The choice of the analyzer: one of its five candidates; 1024 when no candidate that takes
  part has a positive score; otherwise a candidate that takes part, whose score is positive
  and the highest, every candidate listed before it having a strictly lower score.
\<close>

lemma analyzer_page_size_choice:
  "mco_detect_page_size d \<in> {256, 512, 1024, 2048, 4096}
   \<and> ((\<forall>ps \<in> set COMMON_PAGE_SIZES. page_size_eligible d ps \<longrightarrow> page_size_score d ps \<le> 0)
        \<longrightarrow> mco_detect_page_size d = 1024)
   \<and> ((\<exists>ps \<in> set COMMON_PAGE_SIZES. page_size_eligible d ps \<and> 0 < page_size_score d ps)
        \<longrightarrow> page_size_eligible d (mco_detect_page_size d)
            \<and> 0 < page_size_score d (mco_detect_page_size d)
            \<and> (\<forall>ps \<in> set COMMON_PAGE_SIZES. page_size_eligible d ps
                  \<longrightarrow> page_size_score d ps \<le> page_size_score d (mco_detect_page_size d))
            \<and> (\<forall>ps \<in> set COMMON_PAGE_SIZES.
                  page_size_eligible d ps \<and> ps < mco_detect_page_size d
                  \<longrightarrow> page_size_score d ps < page_size_score d (mco_detect_page_size d)))"
proof -
  define r where "r = foldl (best_step d) (1024, 0) COMMON_PAGE_SIZES"
  have res: "mco_detect_page_size d = fst r" by (simp add: mco_detect_page_size_def r_def)
  have bounds: "\<forall>x \<in> set COMMON_PAGE_SIZES. page_size_eligible d x \<longrightarrow> page_size_score d x \<le> snd r"
    using best_fold_bounds [of 0 d 1024 COMMON_PAGE_SIZES] by (simp add: r_def)
  have "(r = (1024, 0)
          \<and> (\<forall>x \<in> set COMMON_PAGE_SIZES. page_size_eligible d x \<longrightarrow> page_size_score d x \<le> 0))
      \<or> (\<exists>ys zs. COMMON_PAGE_SIZES = ys @ fst r # zs \<and> page_size_eligible d (fst r)
            \<and> page_size_score d (fst r) = snd r \<and> 0 < snd r
            \<and> (\<forall>y \<in> set ys. page_size_eligible d y \<longrightarrow> page_size_score d y < snd r))"
    using best_fold [of d 1024 0 COMMON_PAGE_SIZES] by (simp only: r_def)
  then show ?thesis
  proof
    assume a: "r = (1024, 0)
          \<and> (\<forall>x \<in> set COMMON_PAGE_SIZES. page_size_eligible d x \<longrightarrow> page_size_score d x \<le> 0)"
    then have eq: "fst r = 1024" by simp
    then have m: "fst r \<in> {256, 512, 1024, 2048, 4096}" by simp
    have none: "\<not> (\<exists>ps \<in> set COMMON_PAGE_SIZES. page_size_eligible d ps \<and> 0 < page_size_score d ps)"
      using a by fastforce
    show ?thesis unfolding res using m eq none by blast
  next
    assume "\<exists>ys zs. COMMON_PAGE_SIZES = ys @ fst r # zs \<and> page_size_eligible d (fst r)
            \<and> page_size_score d (fst r) = snd r \<and> 0 < snd r
            \<and> (\<forall>y \<in> set ys. page_size_eligible d y \<longrightarrow> page_size_score d y < snd r)"
    then obtain ys zs where b: "COMMON_PAGE_SIZES = ys @ fst r # zs" "page_size_eligible d (fst r)"
      "page_size_score d (fst r) = snd r" "0 < snd r"
      "\<forall>y \<in> set ys. page_size_eligible d y \<longrightarrow> page_size_score d y < snd r"
      by blast
    have srt: "sorted_wrt (<) (ys @ fst r # zs)" using common_sorted b(1) by simp
    have mem: "fst r \<in> set COMMON_PAGE_SIZES" by (subst b(1)) simp
    then have m: "fst r \<in> {256, 512, 1024, 2048, 4096}" by (simp add: COMMON_PAGE_SIZES_def)
    have not_all: "\<not> (\<forall>ps \<in> set COMMON_PAGE_SIZES. page_size_eligible d ps \<longrightarrow> page_size_score d ps \<le> 0)"
      using mem b(2,3,4) by fastforce
    have before: "\<forall>ps \<in> set COMMON_PAGE_SIZES. page_size_eligible d ps \<and> ps < fst r
                    \<longrightarrow> page_size_score d ps < page_size_score d (fst r)"
    proof (intro ballI impI)
      fix ps assume ps: "ps \<in> set COMMON_PAGE_SIZES" "page_size_eligible d ps \<and> ps < fst r"
      have "ps \<in> set (ys @ fst r # zs)" using ps(1) b(1) by simp
      then have "ps \<in> set ys" using listed_before [OF srt] ps(2) by blast
      then show "page_size_score d ps < page_size_score d (fst r)" using b(3,5) ps(2) by simp
    qed
    have pos: "0 < page_size_score d (fst r)" using b(3,4) by simp
    have top: "\<forall>ps \<in> set COMMON_PAGE_SIZES. page_size_eligible d ps
                  \<longrightarrow> page_size_score d ps \<le> page_size_score d (fst r)"
      using bounds b(3) by simp
    show ?thesis unfolding res using m not_all b(2) pos top before by blast
  qed
qed

lemma len_4096: "length file_4096 = 16384" by (simp add: file_4096_def)

lemma probe_4096:
  assumes "off + 8 \<le> 16384"
  shows "mco_probe_valid file_4096 off \<longleftrightarrow> off mod 4096 = 0"
proof -
  have s: "slice file_4096 off (off + 8)
           = map (\<lambda>i. if i mod 4096 = 0 then 0 else 9) [off..<off + 8]"
    using assms by (simp add: slice_def file_4096_def drop_map take_map take_upt)
  have k: "kind (from_bytes (slice file_4096 off (off + 8))) = (if off mod 4096 = 0 then 0 else 9)"
    unfolding s by (simp add: from_bytes_def)
  show ?thesis
    unfolding mco_probe_valid_def Let_def page_type_def k by simp
qed

lemma scores_4096:
  "page_size_score file_4096 256 = -17" "page_size_score file_4096 512 = -15"
  "page_size_score file_4096 1024 = -9" "page_size_score file_4096 2048 = -1"
  "page_size_score file_4096 4096 = 3"
  by (simp_all add: page_size_score_def len_4096 range_step_def upt_conv_Cons probe_4096 Let_def)

lemma probe_nines: "off + 8 \<le> 1024 \<Longrightarrow> \<not> mco_probe_valid (replicate 1024 9) off"
proof -
  assume "off + 8 \<le> 1024"
  then have "slice (replicate 1024 9) off (off + 8) = replicate 8 (9::byte)"
    by (simp add: slice_def min_def)
  then show ?thesis
    by (simp add: mco_probe_valid_def from_bytes_def page_type_def Let_def)
qed

lemma score_nines: "page_size_score (replicate 1024 9) 256 = -3"
  by (simp add: page_size_score_def range_step_def upt_conv_Cons probe_nines Let_def)

text \<open>
  The detector of the parser. Nothing after \<^verbatim>\<open>_detect_page_size\<close> changes the page size,
  which is 0 before it.
\<close>

lemma parse_raw_records_page_size:
  "page_size (parse_raw_records rs st) = page_size st"
proof (induction rs arbitrary: st)
  case Nil
  show ?case by simp
next
  case (Cons r rs)
  obtain h d where r: "r = (h, d)" by (cases r)
  show ?case unfolding r by (simp add: Cons.IH split: option.splits)
qed

lemma parse_mco_version_page_size: "page_size (parse_mco_version st) = page_size st"
  by (simp add: parse_mco_version_def Let_def split: option.splits prod.splits)

lemma detect_page_size_fresh:
  assumes "page_size st = 0"
  shows "page_size (detect_page_size st)
         = (case find (page_size_accepted (data st)) [512, 1024, 256, 2048] of
              Some ps \<Rightarrow> ps | None \<Rightarrow> 512)"
proof (cases "find (page_size_accepted (data st)) [512, 1024, 256, 2048]")
  case None
  then show ?thesis using assms by (simp add: detect_page_size_def)
next
  case (Some ps)
  then have "ps \<in> set [512, 1024, 256, 2048]" by (metis find_Some_iff nth_mem)
  then have "ps \<noteq> 0" by auto
  then show ?thesis using Some by (simp add: detect_page_size_def)
qed

lemma parse_page_size:
  assumes "0x500 \<le> length b"
  shows "page_size (snd (parse b))
         = (case find (page_size_accepted b) [512, 1024, 256, 2048] of
              Some ps \<Rightarrow> ps | None \<Rightarrow> 512)"
proof -
  define st where "st = detect_schema (parse_header (new_parser\<lparr>data := b, file_size := length b\<rparr>))"
  have d: "data st = b" and z: "page_size st = 0"
    by (simp_all add: st_def detect_schema_def parse_header_def new_parser_def Let_def)
  define st1 where "st1 = (if 8 \<le> length (slice (data st) HEADER_SIZE (HEADER_SIZE + 0x100))
                 then st\<lparr>db_version := \<lparr>db_minor = u16_at (data st) (HEADER_SIZE + 2),
                                          db_major = u16_at (data st) HEADER_SIZE\<rparr>\<rparr>
                 else st)"
  have d1: "data st1 = b" and z1: "page_size st1 = 0" using d z by (simp_all add: st1_def)
  have "page_size (parse_config_block st) = page_size (detect_page_size st1)"
    by (simp add: parse_config_block_def Let_def st1_def parse_mco_version_page_size)
  also have "\<dots> = (case find (page_size_accepted b) [512, 1024, 256, 2048] of
              Some ps \<Rightarrow> ps | None \<Rightarrow> 512)"
    using detect_page_size_fresh [OF z1] by (simp add: d1)
  finally have c: "page_size (parse_config_block st)
      = (case find (page_size_accepted b) [512, 1024, 256, 2048] of Some ps \<Rightarrow> ps | None \<Rightarrow> 512)" .
  have "page_size (snd (parse b)) = page_size (parse_config_block st)"
    using assms
    by (simp add: parse_def HEADER_SIZE_def Let_def find_and_parse_records_def
          scan_for_records_def parse_raw_records_page_size st_def)
  then show ?thesis using c by simp
qed

lemma parser_page_size_first:
  assumes "0x500 \<le> length d"
  shows "page_size (snd (parse d)) \<in> {256, 512, 1024, 2048}
    \<and> ((\<forall>ps \<in> set [512, 1024, 256, 2048]. \<not> page_size_accepted d ps)
         \<longrightarrow> page_size (snd (parse d)) = 512)
    \<and> ((\<exists>ps \<in> set [512, 1024, 256, 2048]. page_size_accepted d ps)
         \<longrightarrow> (\<exists>i < 4. page_size (snd (parse d)) = [512, 1024, 256, 2048] ! i
                 \<and> page_size_accepted d ([512, 1024, 256, 2048] ! i)
                 \<and> (\<forall>j < i. \<not> page_size_accepted d ([512, 1024, 256, 2048] ! j))))"
proof (cases "find (page_size_accepted d) [512, 1024, 256, 2048]")
  case None
  then have r: "page_size (snd (parse d)) = 512" using parse_page_size [OF assms] by simp
  have none: "\<forall>ps \<in> set [512, 1024, 256, 2048]. \<not> page_size_accepted d ps"
    using None by (simp only: find_None_iff) blast
  show ?thesis using r none by simp
next
  case (Some ps)
  then have r: "page_size (snd (parse d)) = ps" using parse_page_size [OF assms] by simp
  from Some obtain i where i: "i < length [512, 1024, 256, 2048 :: nat]"
    "page_size_accepted d ([512, 1024, 256, 2048] ! i)" "ps = [512, 1024, 256, 2048] ! i"
    "\<forall>j < i. \<not> page_size_accepted d ([512, 1024, 256, 2048] ! j)"
    unfolding find_Some_iff by blast
  have m: "ps \<in> set [512, 1024, 256, 2048]" using i(1,3) nth_mem by blast
  then have m': "ps \<in> {256, 512, 1024, 2048}" by auto
  have some: "\<not> (\<forall>ps \<in> set [512, 1024, 256, 2048]. \<not> page_size_accepted d ps)"
    using i(2,3) m by blast
  have i4: "i < 4" using i(1) by simp
  have ex: "\<exists>i < 4. ps = [512, 1024, 256, 2048] ! i
                 \<and> page_size_accepted d ([512, 1024, 256, 2048] ! i)
                 \<and> (\<forall>j < i. \<not> page_size_accepted d ([512, 1024, 256, 2048] ! j))"
    using i4 i(2,3,4) by blast
  show ?thesis unfolding r using m' some ex by blast
qed

lemma probe_parser_4096:
  assumes "(off + 2) mod 4096 \<noteq> 0" and "(off + 3) mod 4096 \<noteq> 0" and "off + 4 \<le> 16384"
  shows "\<not> page_probe_valid file_4096 off"
proof -
  have n: "file_4096 ! off = (if off mod 4096 = 0 then 0 else 9)"
    using assms(3) by (simp add: file_4096_def)
  have "take 2 (drop (off + 2) file_4096)
        = map (\<lambda>i. if i mod 4096 = 0 then 0 else 9) [off + 2..<off + 2 + 2]"
    using assms(3) by (simp add: file_4096_def drop_map take_map take_upt)
  moreover have "[off + 2..<off + 2 + 2] = [off + 2, off + 3]"
    by (simp add: upt_conv_Cons)
  ultimately have t: "take 2 (drop (off + 2) file_4096) = [9, 9]"
    using assms(1,2) by (simp add: add.commute)
  have u: "u16_at file_4096 (off + 2) = 2313"
    unfolding u16_at_def t using assms(3) by (simp add: len_4096)
  show ?thesis
    unfolding page_probe_valid_def Let_def u n by simp
qed

lemma parser_rejects_4096:
  "\<not> page_size_accepted file_4096 512" "\<not> page_size_accepted file_4096 1024"
  "\<not> page_size_accepted file_4096 256" "\<not> page_size_accepted file_4096 2048"
  by (simp_all add: page_size_accepted_def len_4096 range_step_def upt_conv_Cons
        probe_parser_4096)

lemma le_nat_zeros: "le_nat (replicate n 0) = 0"
  by (induction n) simp_all

lemma probe_parser_zeros: "off + 4 \<le> n \<Longrightarrow> page_probe_valid (replicate n 0) off"
  by (simp add: page_probe_valid_def u16_at_def le_nat_zeros Let_def)

lemma parser_accepts_zeros: "page_size_accepted (replicate 2048 0) 512"
  by (simp add: page_size_accepted_def range_step_def upt_conv_Cons probe_parser_zeros)

text \<open>
  C3, as the code has it. There are two detectors. The page size the analyzer detects is
  one of 256, 512, 1024, 2048 and 4096, the candidates in this order. A candidate takes part
  when the file holds at least four pages of its size. When no such candidate has a
  positive score (valid probes minus invalid probes) the result is 1024. Otherwise the
  result takes part, its score is positive and the highest among those taking part, and
  every candidate listed before it (the smaller ones) that takes part has a strictly lower
  score. The page size the parser records for a file of at least \<open>0x500\<close> bytes is one of
  256, 512, 1024 and 2048: the first of 512, 1024, 256 and 2048, in this order, that is
  accepted, and 512 when none is. The parser accepts a candidate when the file holds at
  least four pages of its size and at least three of its probes, at the multiples of the
  size below sixteen pages and below the end of the file, are valid; it computes no score.
\<close>

theorem page_size_detectors:
  "mco_detect_page_size d \<in> {256, 512, 1024, 2048, 4096}
   \<and> ((\<forall>ps \<in> set COMMON_PAGE_SIZES. page_size_eligible d ps \<longrightarrow> page_size_score d ps \<le> 0)
        \<longrightarrow> mco_detect_page_size d = 1024)
   \<and> ((\<exists>ps \<in> set COMMON_PAGE_SIZES. page_size_eligible d ps \<and> 0 < page_size_score d ps)
        \<longrightarrow> page_size_eligible d (mco_detect_page_size d)
            \<and> 0 < page_size_score d (mco_detect_page_size d)
            \<and> (\<forall>ps \<in> set COMMON_PAGE_SIZES. page_size_eligible d ps
                  \<longrightarrow> page_size_score d ps \<le> page_size_score d (mco_detect_page_size d))
            \<and> (\<forall>ps \<in> set COMMON_PAGE_SIZES.
                  page_size_eligible d ps \<and> ps < mco_detect_page_size d
                  \<longrightarrow> page_size_score d ps < page_size_score d (mco_detect_page_size d)))
   \<and> (0x500 \<le> length d \<longrightarrow>
        page_size (snd (parse d)) \<in> {256, 512, 1024, 2048}
        \<and> ((\<forall>ps \<in> set [512, 1024, 256, 2048]. \<not> page_size_accepted d ps)
             \<longrightarrow> page_size (snd (parse d)) = 512)
        \<and> ((\<exists>ps \<in> set [512, 1024, 256, 2048]. page_size_accepted d ps)
             \<longrightarrow> (\<exists>i < 4. page_size (snd (parse d)) = [512, 1024, 256, 2048] ! i
                     \<and> page_size_accepted d ([512, 1024, 256, 2048] ! i)
                     \<and> (\<forall>j < i. \<not> page_size_accepted d ([512, 1024, 256, 2048] ! j)))))"
  using analyzer_page_size_choice [of d] parser_page_size_first [of d] by blast

text \<open>
  On the file of 16384 bytes no candidate up to 2048 has a positive score and 4096 has the
  score 3: the analyzer chooses 4096, and the parser, which accepts no candidate, records
  512.
\<close>

theorem page_size_4096_counterexample:
  "length file_4096 = 16384
   \<and> map (page_size_score file_4096) COMMON_PAGE_SIZES = [-17, -15, -9, -1, 3]
   \<and> mco_detect_page_size file_4096 = 4096
   \<and> page_size (snd (parse file_4096)) = 512"
proof -
  have big: "0x500 \<le> length file_4096" by (simp add: len_4096)
  have "page_size (snd (parse file_4096)) = 512"
    by (simp add: parse_page_size [OF big] parser_rejects_4096)
  then show ?thesis
    by (simp add: mco_detect_page_size_def COMMON_PAGE_SIZES_def best_step_def scores_4096
        page_size_eligible_def len_4096)
qed

theorem page_size_detectors_witness:
  "page_size_eligible file_4096 4096 \<and> 0 < page_size_score file_4096 4096
   \<and> mco_detect_page_size file_4096 = 4096
   \<and> page_size_score file_4096 2048 < page_size_score file_4096 4096
   \<and> page_size_eligible (replicate 1024 9) 256
   \<and> page_size_score (replicate 1024 9) 256 \<le> 0
   \<and> \<not> page_size_eligible (replicate 1024 9) 512
   \<and> mco_detect_page_size (replicate 1024 9) = 1024
   \<and> 0x500 \<le> length file_4096
   \<and> \<not> page_size_accepted file_4096 512 \<and> \<not> page_size_accepted file_4096 1024
   \<and> \<not> page_size_accepted file_4096 256 \<and> \<not> page_size_accepted file_4096 2048
   \<and> page_size (snd (parse file_4096)) = 512
   \<and> 0x500 \<le> length (replicate 2048 (0::byte))
   \<and> page_size_accepted (replicate 2048 0) 512
   \<and> page_size (snd (parse (replicate 2048 0))) = 512"
proof -
  have none: "\<forall>ps \<in> set COMMON_PAGE_SIZES.
      page_size_eligible (replicate 1024 9) ps \<longrightarrow> page_size_score (replicate 1024 9) ps \<le> 0"
    by (simp add: COMMON_PAGE_SIZES_def page_size_eligible_def score_nines)
  have d: "mco_detect_page_size (replicate 1024 9) = 1024"
    using page_size_detectors [of "replicate 1024 9"] none by blast
  have some: "\<exists>ps \<in> set COMMON_PAGE_SIZES.
      page_size_eligible file_4096 ps \<and> 0 < page_size_score file_4096 ps"
    by (simp add: COMMON_PAGE_SIZES_def page_size_eligible_def len_4096 scores_4096)
  have e: "page_size_eligible file_4096 (mco_detect_page_size file_4096)
           \<and> 0 < page_size_score file_4096 (mco_detect_page_size file_4096)"
    using page_size_detectors [of file_4096] some by blast
  have r: "mco_detect_page_size file_4096 = 4096"
    by (simp add: mco_detect_page_size_def COMMON_PAGE_SIZES_def best_step_def scores_4096
          page_size_eligible_def len_4096)
  have big: "0x500 \<le> length file_4096" by (simp add: len_4096)
  have rej: "\<forall>ps \<in> set [512, 1024, 256, 2048]. \<not> page_size_accepted file_4096 ps"
    by (simp add: parser_rejects_4096)
  have p: "page_size (snd (parse file_4096)) = 512"
    using page_size_detectors [of file_4096] big rej by blast
  have bigz: "0x500 \<le> length (replicate 2048 (0::byte))" by simp
  have acc: "\<exists>ps \<in> set [512, 1024, 256, 2048]. page_size_accepted (replicate 2048 0) ps"
    using parser_accepts_zeros by simp
  obtain i where i: "i < 4"
    "page_size (snd (parse (replicate 2048 0))) = [512, 1024, 256, 2048] ! i"
    "\<forall>j < i. \<not> page_size_accepted (replicate 2048 0) ([512, 1024, 256, 2048] ! j)"
    using page_size_detectors [of "replicate 2048 0"] bigz acc by blast
  have "i = 0"
  proof (rule ccontr)
    assume "i \<noteq> 0"
    then have "0 < i" by simp
    then have "\<not> page_size_accepted (replicate 2048 0) ([512, 1024, 256, 2048] ! 0)"
      using i(3) by blast
    then show False using parser_accepts_zeros by simp
  qed
  then have z: "page_size (snd (parse (replicate 2048 0))) = 512" using i(2) by simp
  show ?thesis
    using d e p z
    by (simp add: r scores_4096 page_size_eligible_def score_nines len_4096
          parser_rejects_4096 parser_accepts_zeros)
qed

end
